theory Spec2Isabelle
  imports Complex_Main "HOL-Library.AList"
begin

section \<open>JavaScript values\<close>

text \<open>
  The extension passes plain data between its parts: records read from the page, messages
  sent through \<^verbatim>\<open>chrome.runtime.sendMessage\<close>, records kept in IndexedDB. Such a
  value is \<^verbatim>\<open>undefined\<close>, \<^verbatim>\<open>null\<close>, a boolean, a number, a string, an
  array or an object. Numbers are integers here (no NaN, no fractions, and of a size that
  JavaScript and SQLite keep as an integer), strings are lists of 8-bit characters, and an
  object is the list of its own properties.
\<close>

datatype jsval =
    JUndef
  | JNull
  | JBool bool
  | JNum int
  | JStr string
  | JArr "jsval list"
  | JObj "(string \<times> jsval) list"

text \<open>What \<^verbatim>\<open>if (v)\<close>, \<^verbatim>\<open>!v\<close> and \<^verbatim>\<open>v || w\<close> test.\<close>

fun truthy :: "jsval \<Rightarrow> bool" where
  "truthy JUndef = False"
| "truthy JNull = False"
| "truthy (JBool b) = b"
| "truthy (JNum n) = (n \<noteq> 0)"
| "truthy (JStr s) = (s \<noteq> [])"
| "truthy (JArr xs) = True"
| "truthy (JObj kvs) = True"

definition js_or :: "jsval \<Rightarrow> jsval \<Rightarrow> jsval" where
  "js_or a b = (if truthy a then a else b)"

text \<open>
  \<^verbatim>\<open>v.k\<close> (and \<^verbatim>\<open>v?.k\<close>): the property of an object, \<^verbatim>\<open>undefined\<close> when
  the object has none of that name. The names read in this program are record fields
  (\<^verbatim>\<open>channel_id\<close>, \<^verbatim>\<open>last_crawled_at\<close>, ...), which no primitive value and no
  array has; every read of a possibly \<^verbatim>\<open>null\<close> value in the source is guarded
  (\<^verbatim>\<open>!v ||\<close>) or optional (\<^verbatim>\<open>?.\<close>).
\<close>

fun field :: "jsval \<Rightarrow> string \<Rightarrow> jsval" where
  "field (JObj kvs) k = (case map_of kvs k of Some v \<Rightarrow> v | None \<Rightarrow> JUndef)"
| "field v k = JUndef"

text \<open>The own properties that \<^verbatim>\<open>{...v}\<close> copies; none for \<^verbatim>\<open>undefined\<close>.\<close>

fun props :: "jsval \<Rightarrow> (string \<times> jsval) list" where
  "props (JObj kvs) = kvs"
| "props v = []"

fun is_string :: "jsval \<Rightarrow> bool" where
  "is_string (JStr s) = True"
| "is_string v = False"

text \<open>String helpers: \<^verbatim>\<open>s.startsWith(p)\<close> and \<^verbatim>\<open>s.includes(sub)\<close>.\<close>

fun starts_with :: "string \<Rightarrow> string \<Rightarrow> bool" where
  "starts_with s [] = True"
| "starts_with [] (p # ps) = False"
| "starts_with (c # cs) (p # ps) = (c = p \<and> starts_with cs ps)"

fun js_includes :: "string \<Rightarrow> string \<Rightarrow> bool" where
  "js_includes [] sub = (sub = [])"
| "js_includes (c # cs) sub = (starts_with (c # cs) sub \<or> js_includes cs sub)"


section \<open>The keyed store (IndexedDBManager)\<close>

text \<open>
  An object store with an in-line key: \<^verbatim>\<open>put\<close> files the record under the value of
  its key path, replacing a record with the same key, and raises \<^verbatim>\<open>DataError\<close> when
  that value is no valid key. Strings, numbers and arrays of valid keys are valid keys.
  Failures of the engine itself (the \<^verbatim>\<open>onerror\<close> callbacks) are outside the model:
  every request on a valid key succeeds.
\<close>

type_synonym store = "jsval \<rightharpoonup> jsval"

record db =
  servers :: store
  channels :: store
  users :: store
  messages :: store

datatype idb_error = DataError

text \<open>The text of an error, as a caller reports it; the engine's wording is not modelled.\<close>

fun error_message :: "idb_error \<Rightarrow> string" where
  "error_message DataError = ''DataError''"

fun valid_key :: "jsval \<Rightarrow> bool" where
  "valid_key (JStr s) = True"
| "valid_key (JNum n) = True"
| "valid_key (JArr xs) = (\<forall>x \<in> set xs. valid_key x)"
| "valid_key v = False"

definition put :: "string \<Rightarrow> jsval \<Rightarrow> store \<Rightarrow> idb_error + store" where
  "put keyPath data st =
     (let k = field data keyPath
      in if valid_key k then Inr (st(k \<mapsto> data)) else Inl DataError)"

definition get :: "jsval \<Rightarrow> store \<Rightarrow> idb_error + jsval" where
  "get k st =
     (if valid_key k then Inr (case st k of None \<Rightarrow> JUndef | Some r \<Rightarrow> r)
      else Inl DataError)"

text \<open>
  A store operation returns the error that rejected its promise, if any, and the database
  as it is afterwards.
\<close>

type_synonym outcome = "idb_error option \<times> db"

definition and_then :: "outcome \<Rightarrow> (db \<Rightarrow> outcome) \<Rightarrow> outcome" where
  "and_then r f = (case r of (Some e, d) \<Rightarrow> (Some e, d) | (None, d) \<Rightarrow> f d)"

text \<open>
  \<^verbatim>\<open>storeChannel\<close>: read the stored channel, merge, write.
  \<^verbatim>\<open>{...existing, ...channel, last_crawled_at: ...}\<close> is the stored properties
  overridden by the incoming ones, with \<^verbatim>\<open>last_crawled_at\<close> set last.
\<close>

definition channelData :: "jsval \<Rightarrow> jsval \<Rightarrow> jsval" where
  "channelData existing channel =
     JObj (AList.update ''last_crawled_at''
            (if field channel ''last_crawled_at'' \<noteq> JUndef
             then field channel ''last_crawled_at''
             else js_or (field existing ''last_crawled_at'') JNull)
            (AList.merge (props existing) (props channel)))"

definition storeChannel :: "jsval \<Rightarrow> db \<Rightarrow> outcome" where
  "storeChannel channel d =
     (if \<not> truthy channel \<or> \<not> truthy (field channel ''channel_id'') then (None, d)
      else case get (field channel ''channel_id'') (channels d) of
             Inl e \<Rightarrow> (Some e, d)
           | Inr existing \<Rightarrow>
               (case put ''channel_id'' (channelData existing channel) (channels d) of
                  Inl e \<Rightarrow> (Some e, d)
                | Inr st \<Rightarrow> (None, d\<lparr>channels := st\<rparr>)))"

text \<open>\<^verbatim>\<open>_storeData\<close>, \<^verbatim>\<open>storeServer\<close> and \<^verbatim>\<open>getChannel\<close>.\<close>

definition storeData :: "string \<Rightarrow> jsval \<Rightarrow> store \<Rightarrow> idb_error + store" where
  "storeData keyPath data st =
     (if \<not> truthy data \<or> \<not> truthy (field data keyPath) then Inr st
      else put keyPath data st)"

definition storeServer :: "jsval \<Rightarrow> db \<Rightarrow> outcome" where
  "storeServer server d =
     (case storeData ''server_id'' server (servers d) of
        Inl e \<Rightarrow> (Some e, d)
      | Inr st \<Rightarrow> (None, d\<lparr>servers := st\<rparr>))"

definition getChannel :: "jsval \<Rightarrow> db \<Rightarrow> idb_error + jsval" where
  "getChannel channelId d =
     (if \<not> truthy channelId then Inr JNull
      else case get channelId (channels d) of
             Inl e \<Rightarrow> Inl e
           | Inr r \<Rightarrow> Inr (js_or r JNull))"


section \<open>The crawl slot of the background worker\<close>

text \<open>
  \<^verbatim>\<open>crawlState\<close>. The flag is a boolean and the count a number, as the extension's
  own messages set them; the channel and the names are whatever a request carried.
\<close>

record crawl_state =
  isCrawling :: bool
  currentTabId :: "nat option"
  currentChannel :: jsval
  currentChannelName :: jsval
  currentServerName :: jsval
  messageCount :: int

definition resetCrawlState :: "crawl_state \<Rightarrow> crawl_state" where
  "resetCrawlState cs =
     cs\<lparr>isCrawling := False, currentTabId := None, currentChannel := JNull,
        currentChannelName := JNull, currentServerName := JNull, messageCount := 0\<rparr>"

text \<open>\<^verbatim>\<open>sendResponseHelper\<close>: the reply \<^verbatim>\<open>{success, ...data, error}\<close>.\<close>

record response =
  success :: bool
  error :: "string option"

definition ok :: response where
  "ok = \<lparr>success = True, error = None\<rparr>"

definition failed :: "string \<Rightarrow> response" where
  "failed msg = \<lparr>success = False, error = Some msg\<rparr>"

record tab =
  tab_id :: nat
  url :: "string option"

text \<open>
  The \<^verbatim>\<open>startCrawl\<close> handler. Its surroundings are arguments: what
  \<^verbatim>\<open>chrome.tabs.query\<close> gives (the active tab, none, or the message of the error it
  raised) and whether \<^verbatim>\<open>chrome.tabs.sendMessage\<close> to the content script raised.
\<close>

definition startCrawl ::
  "string + tab option \<Rightarrow> string option \<Rightarrow> crawl_state \<Rightarrow> response \<times> crawl_state" where
  "startCrawl query sendError cs =
     (if isCrawling cs then (failed ''Crawler is already running'', cs)
      else case query of
        Inl msg \<Rightarrow> (failed msg, cs)
      | Inr None \<Rightarrow> (failed ''Please navigate to a Discord channel first'', cs)
      | Inr (Some t) \<Rightarrow>
          (case url t of
             None \<Rightarrow> (failed ''Please navigate to a Discord channel first'', cs)
           | Some u \<Rightarrow>
               if u = [] \<or> \<not> js_includes u ''discord.com''
               then (failed ''Please navigate to a Discord channel first'', cs)
               else
                 let cs' = cs\<lparr>isCrawling := True, currentTabId := Some (tab_id t),
                               messageCount := 0\<rparr>
                 in (case sendError of
                       None \<Rightarrow> (ok, cs')
                     | Some msg \<Rightarrow>
                         (failed (''Failed to start crawler: '' @ msg), resetCrawlState cs'))))"


section \<open>The page as the scraper reads it\<close>

text \<open>
  The content script reads the page through a handful of DOM calls. An element is modelled
  by what those calls return: its tag, its attributes, its \<^verbatim>\<open>src\<close>,
  \<^verbatim>\<open>textContent\<close> and \<^verbatim>\<open>innerHTML\<close>, its class list, its parent, and the
  answers of \<^verbatim>\<open>querySelector\<close>, \<^verbatim>\<open>querySelectorAll\<close> and
  \<^verbatim>\<open>closest\<close> for each selector the script uses. \<open>node_id\<close> is the identity
  of the node, which \<^verbatim>\<open>===\<close> on elements compares.
\<close>

datatype selector =
    Nav_server_h2             \<comment> \<open>\<^verbatim>\<open>nav[aria-label*="server"] h2\<close>\<close>
  | Header_h2                 \<comment> \<open>\<^verbatim>\<open>header h2\<close>\<close>
  | Header                    \<comment> \<open>\<^verbatim>\<open>header\<close>\<close>
  | H2                        \<comment> \<open>\<^verbatim>\<open>h2\<close>\<close>
  | H1                        \<comment> \<open>\<^verbatim>\<open>h1\<close>\<close>
  | Channel_header_h1         \<comment> \<open>\<^verbatim>\<open>section[aria-label="Channel header"] h1\<close>\<close>
  | Class_titleWrapper        \<comment> \<open>\<^verbatim>\<open>[class*="titleWrapper"]\<close>\<close>
  | Span_id_username          \<comment> \<open>\<^verbatim>\<open>span[id^="username"]\<close>\<close>
  | Class_username            \<comment> \<open>\<^verbatim>\<open>[class*="username"]\<close>\<close>
  | Class_author              \<comment> \<open>\<^verbatim>\<open>[class*="author"]\<close>\<close>
  | Id_user                   \<comment> \<open>\<^verbatim>\<open>[id*="user"]\<close>\<close>
  | Img_cdn_avatars           \<comment> \<open>\<^verbatim>\<open>img[src*="cdn.discordapp.com/avatars/"]\<close>\<close>
  | Img_discordapp_avatars    \<comment> \<open>\<^verbatim>\<open>img[src*="discordapp.com/avatars/"]\<close>\<close>
  | Img_avatars               \<comment> \<open>\<^verbatim>\<open>img[src*="avatars/"]\<close>\<close>
  | Time                      \<comment> \<open>\<^verbatim>\<open>time\<close>\<close>
  | Class_timestamp           \<comment> \<open>\<^verbatim>\<open>[class*="timestamp"]\<close>\<close>
  | Div_id_message_content    \<comment> \<open>\<^verbatim>\<open>div[id^="message-content-"]\<close>\<close>
  | Class_messageContent      \<comment> \<open>\<^verbatim>\<open>[class*="messageContent"]\<close>\<close>
  | Class_markup              \<comment> \<open>\<^verbatim>\<open>[class*="markup"]\<close>\<close>
  | Class_text                \<comment> \<open>\<^verbatim>\<open>[class*="text"]\<close>\<close>
  | Group_class_reactions     \<comment> \<open>\<^verbatim>\<open>[role="group"][class*="reactions"]\<close>\<close>
  | Id_message_reactions      \<comment> \<open>\<^verbatim>\<open>[id^="message-reactions-"]\<close>\<close>
  | Class_reactions           \<comment> \<open>\<^verbatim>\<open>[class*="reactions"]\<close>\<close>
  | Img_emoji                 \<comment> \<open>\<^verbatim>\<open>img.emoji[data-type="emoji"]\<close>\<close>
  | Class_reaction_only       \<comment> \<open>\<^verbatim>\<open>[class*="reaction"]:not([class*="reactions"])\<close>\<close>
  | Class_reactionCount       \<comment> \<open>\<^verbatim>\<open>[class*="reactionCount"]\<close>\<close>
  | Class_attachment          \<comment> \<open>\<^verbatim>\<open>[class*="attachment"]\<close>\<close>
  | Class_embed               \<comment> \<open>\<^verbatim>\<open>[class*="embed"]\<close>\<close>
  | Class_imageWrapper        \<comment> \<open>\<^verbatim>\<open>[class*="imageWrapper"]\<close>\<close>
  | Span_id_message_username  \<comment> \<open>\<^verbatim>\<open>span[id^="message-username-"]\<close>\<close>
  | Class_header              \<comment> \<open>\<^verbatim>\<open>[class*="header"]\<close>\<close>
  | Span_class_username       \<comment> \<open>\<^verbatim>\<open>span[class*="username"]\<close>\<close>
  | Ol_chat_messages          \<comment> \<open>\<^verbatim>\<open>ol[data-list-id="chat-messages"]\<close>\<close>
  | Li_chat_messages          \<comment> \<open>\<^verbatim>\<open>li[id^="chat-messages-"]\<close>\<close>

datatype element = Element
  (node_id: nat)
  (tagName: string)
  (getAttribute: "string \<Rightarrow> string option")
  (src: string)
  (textContent: string)
  (innerHTML: string)
  (classList: "string list")
  (parentElement: "element option")
  (querySelector: "selector \<Rightarrow> element option")
  (querySelectorAll: "selector \<Rightarrow> element list")
  (closest: "selector \<Rightarrow> element option")

text \<open>A query that found an element.\<close>

definition found :: "element option \<Rightarrow> bool" where
  "found r = (r \<noteq> None)"

text \<open>\<^verbatim>\<open>a || b\<close> on query results.\<close>

definition or_else :: "'a option \<Rightarrow> 'a option \<Rightarrow> 'a option" where
  "or_else a b = (case a of Some x \<Rightarrow> Some x | None \<Rightarrow> b)"

subsection \<open>Strings: trim, digits, the regular expressions, parseInt\<close>

definition is_space :: "char \<Rightarrow> bool" where
  "is_space c = (c \<in> set [CHR '' '', CHR 0x09, CHR 0x0A, CHR 0x0B, CHR 0x0C, CHR 0x0D, CHR 0xA0])"

definition trim :: "string \<Rightarrow> string" where
  "trim s = rev (dropWhile is_space (rev (dropWhile is_space s)))"

text \<open>\<^verbatim>\<open>s.trim() || null\<close>: the trimmed text, \<^verbatim>\<open>null\<close> when it is empty.\<close>

definition nonempty :: "string \<Rightarrow> string option" where
  "nonempty s = (if s = [] then None else Some s)"

definition is_digit :: "char \<Rightarrow> bool" where
  "is_digit c = (c \<in> set ''0123456789'')"

text \<open>\<^verbatim>\<open>(\d+)\<close> at the head of a string: the longest run of digits, and the rest.\<close>

definition digits1 :: "string \<Rightarrow> (string \<times> string) option" where
  "digits1 s =
     (if takeWhile is_digit s = [] then None
      else Some (takeWhile is_digit s, dropWhile is_digit s))"

text \<open>A pattern without \<^verbatim>\<open>^\<close> is tried at each position, the leftmost first.\<close>

fun search :: "(string \<Rightarrow> 'a option) \<Rightarrow> string \<Rightarrow> 'a option" where
  "search m [] = m []"
| "search m (c # cs) = (case m (c # cs) of Some r \<Rightarrow> Some r | None \<Rightarrow> search m cs)"

text \<open>
  \<^verbatim>\<open>/^chat-messages-\d+-(\d+)$/\<close>. After the longest run of digits the next
  character is no digit, so a shorter run cannot be followed by \<^verbatim>\<open>-\<close> where the
  longest is not: taking the longest run decides the match.
\<close>

definition match_chat_message :: "string \<Rightarrow> string option" where
  "match_chat_message s =
     (if starts_with s ''chat-messages-'' then
        (case digits1 (drop 14 s) of
           None \<Rightarrow> None
         | Some (channel, r) \<Rightarrow>
             if starts_with r ''-'' \<and> drop 1 r \<noteq> [] \<and> (\<forall>c \<in> set (drop 1 r). is_digit c)
             then Some (drop 1 r) else None)
      else None)"

text \<open>\<^verbatim>\<open>/guilds\/\d+\/users\/(\d+)\/avatars\//\<close> at the head of a string.\<close>

definition guild_avatar_at :: "string \<Rightarrow> string option" where
  "guild_avatar_at s =
     (if starts_with s ''guilds/'' then
        (case digits1 (drop 7 s) of
           None \<Rightarrow> None
         | Some (guild, r) \<Rightarrow>
             if starts_with r ''/users/'' then
               (case digits1 (drop 7 r) of
                  None \<Rightarrow> None
                | Some (user, r') \<Rightarrow> if starts_with r' ''/avatars/'' then Some user else None)
             else None)
      else None)"

text \<open>\<^verbatim>\<open>/avatars\/(\d+)\//\<close> at the head of a string.\<close>

definition avatar_at :: "string \<Rightarrow> string option" where
  "avatar_at s =
     (if starts_with s ''avatars/'' then
        (case digits1 (drop 8 s) of
           None \<Rightarrow> None
         | Some (user, r) \<Rightarrow> if starts_with r ''/'' then Some user else None)
      else None)"

text \<open>\<^verbatim>\<open>/discord\.com\/channels\/(\d+)\/(\d+)/\<close> at the head of a string.\<close>

definition channel_url_at :: "string \<Rightarrow> (string \<times> string) option" where
  "channel_url_at s =
     (if starts_with s ''discord.com/channels/'' then
        (case digits1 (drop 21 s) of
           None \<Rightarrow> None
         | Some (server, r) \<Rightarrow>
             if starts_with r ''/'' then
               (case digits1 (drop 1 r) of
                  None \<Rightarrow> None
                | Some (channel, r') \<Rightarrow> Some (server, channel))
             else None)
      else None)"

text \<open>
  \<^verbatim>\<open>parseInt(s)\<close> with no radix: leading white space, a sign, \<^verbatim>\<open>0x\<close> for
  base 16, then the longest run of digits of the base; \<^verbatim>\<open>NaN\<close>, here \<open>None\<close>,
  when there is no digit.
\<close>

definition digit_value :: "char \<Rightarrow> int option" where
  "digit_value c =
     map_of (zip ''0123456789abcdefABCDEF''
               [0, 1, 2, 3, 4, 5, 6, 7, 8, 9, 10, 11, 12, 13, 14, 15, 10, 11, 12, 13, 14, 15]) c"

definition is_radix_digit :: "int \<Rightarrow> char \<Rightarrow> bool" where
  "is_radix_digit radix c = (case digit_value c of None \<Rightarrow> False | Some v \<Rightarrow> v < radix)"

definition parse_digits :: "int \<Rightarrow> string \<Rightarrow> int option" where
  "parse_digits radix s =
     (let ds = takeWhile (is_radix_digit radix) s
      in if ds = [] then None
         else Some (foldl (\<lambda>acc c. acc * radix + the (digit_value c)) 0 ds))"

definition parse_unsigned :: "string \<Rightarrow> int option" where
  "parse_unsigned s =
     (if starts_with s ''0x'' \<or> starts_with s ''0X'' then parse_digits 16 (drop 2 s)
      else parse_digits 10 s)"

definition parseInt :: "string \<Rightarrow> int option" where
  "parseInt s =
     (let t = dropWhile is_space s
      in if starts_with t ''-'' then map_option uminus (parse_unsigned (drop 1 t))
         else if starts_with t ''+'' then parse_unsigned (drop 1 t)
         else parse_unsigned t)"


section \<open>The scraper (ScraperService)\<close>

text \<open>
  The records the scraper builds, with the field names of the source; the fields of a user
  and of the page context carry a prefix, since a message has a \<open>user_id\<close> and a
  \<open>channel_id\<close> too.
\<close>

record reaction =
  emoji :: string
  count :: int

record message =
  message_id :: string
  channel_id :: "string option"
  user_id :: "string option"
  timestamp :: string
  content :: string
  has_attachments :: bool
  reactions :: "reaction list"

record user =
  u_user_id :: string
  u_username :: string
  u_avatar_url :: "string option"

record parsed =
  p_message :: message
  p_user :: "user option"

record page_context =
  c_server_id :: "string option"
  c_server_name :: "string option"
  c_channel_id :: "string option"
  c_channel_name :: "string option"

text \<open>
  The state of the service. \<open>scrollInterval\<close> tells whether a scroll timer is pending
  (\<^verbatim>\<open>scrollCheckInterval\<close> is never set in the source and is left out), and \<open>sent\<close>
  collects, in order, the messages handed to \<^verbatim>\<open>chrome.runtime.sendMessage\<close>.
\<close>

record scraper =
  sc_isCrawling :: bool
  processedMessageIds :: "string set"
  scrollInterval :: bool
  lastMessageCount :: nat
  noNewMessagesCount :: nat
  ctx :: page_context
  sent :: "jsval list"

definition NO_NEW_MESSAGES_THRESHOLD :: nat where
  "NO_NEW_MESSAGES_THRESHOLD = 3"

record page =
  href :: string
  document :: element

text \<open>A string or \<^verbatim>\<open>null\<close> as a value, and the test \<^verbatim>\<open>if (s)\<close> on it.\<close>

definition js_opt :: "string option \<Rightarrow> jsval" where
  "js_opt x = (case x of None \<Rightarrow> JNull | Some s \<Rightarrow> JStr s)"

definition truthy_str :: "string option \<Rightarrow> bool" where
  "truthy_str x = (case x of None \<Rightarrow> False | Some s \<Rightarrow> s \<noteq> [])"

definition size_of :: "string set \<Rightarrow> nat" where
  "size_of ids = card ids"

subsection \<open>The page context\<close>

definition extractIdsFromUrl :: "page \<Rightarrow> string option \<times> string option" where
  "extractIdsFromUrl pg =
     (case search channel_url_at (href pg) of
        Some (server, channel) \<Rightarrow> (Some server, Some channel)
      | None \<Rightarrow> (None, None))"

definition text_of :: "element \<Rightarrow> string option" where
  "text_of e = nonempty (trim (textContent e))"

definition extractServerName :: "page \<Rightarrow> string option" where
  "extractServerName pg =
     (case querySelector (document pg) Nav_server_h2 of
        Some navServer \<Rightarrow> text_of navServer
      | None \<Rightarrow>
         (case querySelector (document pg) Header_h2 of
            Some headerH2 \<Rightarrow> text_of headerH2
          | None \<Rightarrow>
             (case querySelector (document pg) Header of
                Some header \<Rightarrow>
                  (case querySelector header H2 of Some h2 \<Rightarrow> text_of h2 | None \<Rightarrow> None)
              | None \<Rightarrow> None)))"

definition extractChannelName :: "page \<Rightarrow> string option" where
  "extractChannelName pg =
     (case querySelector (document pg) Channel_header_h1 of
        Some channelHeader \<Rightarrow> text_of channelHeader
      | None \<Rightarrow>
         (case querySelector (document pg) Class_titleWrapper of
            Some titleWrapper \<Rightarrow> text_of titleWrapper
          | None \<Rightarrow>
             (case querySelector (document pg) Header of
                Some header \<Rightarrow>
                  (case querySelector header H1 of Some h1 \<Rightarrow> text_of h1 | None \<Rightarrow> None)
              | None \<Rightarrow> None)))"

definition updateContext :: "page \<Rightarrow> scraper \<Rightarrow> scraper" where
  "updateContext pg s =
     (let c = \<lparr>c_server_id = fst (extractIdsFromUrl pg),
                c_server_name = extractServerName pg,
                c_channel_id = snd (extractIdsFromUrl pg),
                c_channel_name = extractChannelName pg\<rparr>;
          s' = s\<lparr>ctx := c\<rparr>
      in if sc_isCrawling s'
         then s'\<lparr>sent := sent s' @
                [JObj [(''action'', JStr ''updateCrawlStatus''),
                       (''channelId'', js_opt (c_channel_id c)),
                       (''channelName'', js_opt (c_channel_name c)),
                       (''serverName'', js_opt (c_server_name c)),
                       (''messageCount'', JNum (int (size_of (processedMessageIds s'))))]]\<rparr>
         else s')"

subsection \<open>The extractor\<close>

definition extractUserIdFromAvatar :: "element \<Rightarrow> string option" where
  "extractUserIdFromAvatar imgElement =
     (if src imgElement = [] then None
      else case search guild_avatar_at (src imgElement) of
             Some u \<Rightarrow> Some u
           | None \<Rightarrow> search avatar_at (src imgElement))"

text \<open>The second strategy of \<^verbatim>\<open>extractUsername\<close>: the first selector whose element has text.\<close>

fun first_text :: "element \<Rightarrow> selector list \<Rightarrow> string option" where
  "first_text element [] = None"
| "first_text element (sel # sels) =
     (case querySelector element sel of
        None \<Rightarrow> first_text element sels
      | Some elem \<Rightarrow>
          if trim (textContent elem) \<noteq> [] then Some (trim (textContent elem))
          else first_text element sels)"

definition extractUsername :: "element \<Rightarrow> string option" where
  "extractUsername element =
     (case querySelector element Span_id_username of
        Some usernameSpan \<Rightarrow> text_of usernameSpan
      | None \<Rightarrow> first_text element [Class_username, Class_author, Id_user])"

definition extractAvatarUrl :: "element \<Rightarrow> string option" where
  "extractAvatarUrl element =
     (case or_else (querySelector element Img_cdn_avatars)
             (or_else (querySelector element Img_discordapp_avatars)
                (querySelector element Img_avatars)) of
        Some avatarImg \<Rightarrow> nonempty (src avatarImg)
      | None \<Rightarrow> None)"

definition extractMessageId :: "element \<Rightarrow> string option" where
  "extractMessageId element =
     (case getAttribute element ''id'' of
        None \<Rightarrow> None
      | Some i \<Rightarrow>
          if i = [] then None
          else (case match_chat_message i of Some m \<Rightarrow> Some m | None \<Rightarrow> Some i))"

text \<open>An attribute that is present and not empty.\<close>

definition attr :: "element \<Rightarrow> string \<Rightarrow> string option" where
  "attr e name = (case getAttribute e name of None \<Rightarrow> None | Some v \<Rightarrow> nonempty v)"

fun first_datetime :: "element \<Rightarrow> selector list \<Rightarrow> string option" where
  "first_datetime element [] = None"
| "first_datetime element (sel # sels) =
     (case querySelector element sel of
        None \<Rightarrow> first_datetime element sels
      | Some elem \<Rightarrow>
          (case attr elem ''datetime'' of
             Some datetime \<Rightarrow> Some datetime
           | None \<Rightarrow> first_datetime element sels))"

text \<open>\<open>now\<close> is \<^verbatim>\<open>new Date().toISOString()\<close> at the time of the call.\<close>

definition extractTimestamp :: "element \<Rightarrow> string \<Rightarrow> string" where
  "extractTimestamp element now =
     (case (case querySelector element Time of
              Some timeElement \<Rightarrow> attr timeElement ''datetime''
            | None \<Rightarrow> None) of
        Some datetime \<Rightarrow> datetime
      | None \<Rightarrow>
          (case first_datetime element [Class_timestamp, Time] of
             Some datetime \<Rightarrow> datetime
           | None \<Rightarrow> now))"

text \<open>\<^verbatim>\<open>e.textContent?.trim() || e.innerHTML?.trim() || ''\<close>.\<close>

definition text_or_markup :: "element \<Rightarrow> string" where
  "text_or_markup e = (if trim (textContent e) \<noteq> [] then trim (textContent e) else trim (innerHTML e))"

fun first_content :: "element \<Rightarrow> selector list \<Rightarrow> string" where
  "first_content element [] = []"
| "first_content element (sel # sels) =
     (case querySelector element sel of
        None \<Rightarrow> first_content element sels
      | Some elem \<Rightarrow> text_or_markup elem)"

definition extractContent :: "element \<Rightarrow> string" where
  "extractContent element =
     (case querySelector element Div_id_message_content of
        Some contentDiv \<Rightarrow> text_or_markup contentDiv
      | None \<Rightarrow> first_content element [Class_messageContent, Class_markup, Class_text])"

text \<open>
  The walk up the parents of an emoji image, to the first one below the reactions container
  with a class that contains \<^verbatim>\<open>reaction\<close> and not \<^verbatim>\<open>reactions\<close>.
\<close>

fun walk_up :: "nat \<Rightarrow> element option \<Rightarrow> element option" where
  "walk_up container None = None"
| "walk_up container (Some (Element i tag attrs sr txt html classes parent q qa cl)) =
     (if i = container then None
      else if \<exists>c \<in> set classes. js_includes c ''reaction'' \<and> \<not> js_includes c ''reactions''
        then Some (Element i tag attrs sr txt html classes parent q qa cl)
      else walk_up container parent)"

text \<open>
  The count shown beside an emoji: \<^verbatim>\<open>parseInt(countEl.textContent.trim()) || 0\<close>, and
  0 without a reaction element or without a count element.
\<close>

definition reaction_count :: "element option \<Rightarrow> int" where
  "reaction_count reactionEl =
     (case reactionEl of
        None \<Rightarrow> 0
      | Some r \<Rightarrow>
          (case querySelector r Class_reactionCount of
             None \<Rightarrow> 0
           | Some countEl \<Rightarrow>
               (case parseInt (trim (textContent countEl)) of None \<Rightarrow> 0 | Some n \<Rightarrow> n)))"

text \<open>
  The reaction element of an emoji image: \<^verbatim>\<open>closest\<close>, and the walk up when that
  finds none.
\<close>

definition reaction_element :: "element \<Rightarrow> element \<Rightarrow> element option" where
  "reaction_element reactionsContainer emojiImg =
     or_else (closest emojiImg Class_reaction_only)
       (walk_up (node_id reactionsContainer) (parentElement emojiImg))"

text \<open>One round of the \<^verbatim>\<open>forEach\<close> in \<^verbatim>\<open>extractReactions\<close>: the reaction pushed, if any.\<close>

definition reaction_of :: "element \<Rightarrow> element \<Rightarrow> reaction option" where
  "reaction_of reactionsContainer emojiImg =
     (case attr emojiImg ''data-name'' of
        None \<Rightarrow> None
      | Some emojiName \<Rightarrow>
          let n = reaction_count (reaction_element reactionsContainer emojiImg)
          in if n = 0 then None else Some \<lparr>emoji = emojiName, count = n\<rparr>)"

definition extractReactions :: "element \<Rightarrow> reaction list" where
  "extractReactions element =
     (case or_else (querySelector element Group_class_reactions)
             (or_else (querySelector element Id_message_reactions)
                (querySelector element Class_reactions)) of
        None \<Rightarrow> []
      | Some reactionsContainer \<Rightarrow>
          List.map_filter (reaction_of reactionsContainer)
            (querySelectorAll reactionsContainer Img_emoji))"

definition hasAttachments :: "element \<Rightarrow> bool" where
  "hasAttachments element =
     (\<exists>sel \<in> set [Class_attachment, Class_embed, Class_imageWrapper].
        found (querySelector element sel))"

definition hasMessageHeader :: "element \<Rightarrow> bool" where
  "hasMessageHeader element =
     (if found (querySelector element Img_avatars) then True
      else if found (querySelector element Span_id_message_username) then True
      else case querySelector element Class_header of
             Some header \<Rightarrow> found (querySelector header Span_class_username)
           | None \<Rightarrow> False)"

text \<open>
  The user id a message with a header gets:
  \<^verbatim>\<open>avatarImg ? this.extractUserIdFromAvatar(avatarImg) : null\<close>.
\<close>

definition header_user_id :: "element \<Rightarrow> string option" where
  "header_user_id element =
     (case querySelector element Img_avatars of
        Some avatarImg \<Rightarrow> extractUserIdFromAvatar avatarImg
      | None \<Rightarrow> None)"

text \<open>
  \<^verbatim>\<open>parseMessage(element, lastSeenAuthorId)\<close>: the parsed pair or \<^verbatim>\<open>null\<close>, and
  the service afterwards (the id marked as processed, a status update sent at every tenth
  id of a running crawl).
\<close>

definition parseMessage ::
  "element option \<Rightarrow> string option \<Rightarrow> string \<Rightarrow> scraper \<Rightarrow> parsed option \<times> scraper" where
  "parseMessage elem lastSeenAuthorId now s =
     (case elem of
        None \<Rightarrow> (None, s)
      | Some element \<Rightarrow>
          if tagName element \<noteq> ''LI'' then (None, s)
          else (case extractMessageId element of
            None \<Rightarrow> (None, s)
          | Some mid \<Rightarrow>
              if mid \<in> processedMessageIds s then (None, s)
              else
                let hasHeader = hasMessageHeader element;
                    uid = (if hasHeader then header_user_id element else lastSeenAuthorId);
                    name = extractUsername element;
                    avatar = extractAvatarUrl element;
                    m = \<lparr>message_id = mid,
                         channel_id = c_channel_id (ctx s),
                         user_id = uid,
                         timestamp = extractTimestamp element now,
                         content = extractContent element,
                         has_attachments = hasAttachments element,
                         reactions = extractReactions element\<rparr>;
                    u = (if truthy_str uid
                         then Some \<lparr>u_user_id = the uid,
                                    u_username = (case name of Some n \<Rightarrow> n | None \<Rightarrow> ''Unknown''),
                                    u_avatar_url = avatar\<rparr>
                         else None);
                    s1 = s\<lparr>processedMessageIds := insert mid (processedMessageIds s)\<rparr>;
                    s2 = (if sc_isCrawling s1 \<and> size_of (processedMessageIds s1) mod 10 = 0
                          then s1\<lparr>sent := sent s1 @
                                 [JObj [(''action'', JStr ''updateCrawlStatus''),
                                        (''messageCount'',
                                         JNum (int (size_of (processedMessageIds s1))))]]\<rparr>
                          else s1)
                in (Some \<lparr>p_message = m, p_user = u\<rparr>, s2)))"

text \<open>
  \<^verbatim>\<open>extractExistingMessages\<close>: one pass over the rendered list items, carrying the
  last author seen. \<open>clock i\<close> is the time when item \<open>i\<close> is parsed.
\<close>

record pass =
  lastSeenAuthorId :: "string option"
  found_messages :: "message list"
  found_users :: "user list"

fun extract_step ::
  "(nat \<Rightarrow> string) \<Rightarrow> pass \<times> scraper \<Rightarrow> element \<times> nat \<Rightarrow> pass \<times> scraper" where
  "extract_step clock (p, s) (element, index) =
     (case parseMessage (Some element) (lastSeenAuthorId p) (clock index) s of
        (None, s') \<Rightarrow> (p, s')
      | (Some r, s') \<Rightarrow>
          (p\<lparr>lastSeenAuthorId :=
               (if truthy_str (user_id (p_message r)) then user_id (p_message r)
                else lastSeenAuthorId p),
             found_messages := found_messages p @ [p_message r],
             found_users :=
               (case p_user r of
                  None \<Rightarrow> found_users p
                | Some u \<Rightarrow>
                    if u_user_id u \<noteq> [] \<and> u_user_id u \<notin> u_user_id ` set (found_users p)
                    then found_users p @ [u]
                    else found_users p)\<rparr>,
           s'))"

definition extractExistingMessages ::
  "page \<Rightarrow> (nat \<Rightarrow> string) \<Rightarrow> scraper \<Rightarrow> (message list \<times> user list) \<times> scraper" where
  "extractExistingMessages pg clock s =
     (case querySelector (document pg) Ol_chat_messages of
        None \<Rightarrow> (([], []), s)
      | Some chatList \<Rightarrow>
          let messageElements = querySelectorAll chatList Li_chat_messages;
              r = foldl (extract_step clock)
                    (\<lparr>lastSeenAuthorId = None, found_messages = [], found_users = []\<rparr>, s)
                    (zip messageElements [0 ..< length messageElements])
          in ((found_messages (fst r), found_users (fst r)), snd r))"


subsection \<open>What the scraper sends\<close>

definition reaction_js :: "reaction \<Rightarrow> jsval" where
  "reaction_js r = JObj [(''emoji'', JStr (emoji r)), (''count'', JNum (count r))]"

definition message_js :: "message \<Rightarrow> jsval" where
  "message_js m =
     JObj [(''message_id'', JStr (message_id m)),
           (''channel_id'', js_opt (channel_id m)),
           (''user_id'', js_opt (user_id m)),
           (''timestamp'', JStr (timestamp m)),
           (''content'', JStr (content m)),
           (''has_attachments'', JBool (has_attachments m)),
           (''reactions'', JArr (map reaction_js (reactions m)))]"

definition user_js :: "user \<Rightarrow> jsval" where
  "user_js u =
     JObj [(''user_id'', JStr (u_user_id u)),
           (''username'', JStr (u_username u)),
           (''avatar_url'', js_opt (u_avatar_url u))]"

definition save_request :: "page_context \<Rightarrow> user list \<Rightarrow> message list \<Rightarrow> jsval" where
  "save_request c us ms =
     JObj [(''action'', JStr ''saveToIndexedDB''),
           (''updateLastCrawled'', JBool True),
           (''server'', JObj [(''server_id'', js_opt (c_server_id c)),
                             (''server_name'', js_opt (c_server_name c))]),
           (''channel'', JObj [(''channel_id'', js_opt (c_channel_id c)),
                              (''server_id'', js_opt (c_server_id c)),
                              (''channel_name'', js_opt (c_channel_name c))]),
           (''users'', JArr (map user_js us)),
           (''messages'', JArr (map message_js ms))]"

subsection \<open>Scrolling\<close>

text \<open>
  The scroll container, as \<^verbatim>\<open>findScrollContainer\<close> finds it at the time of a call
  (\<open>None\<close> when the page has none), with the three properties the script uses.
\<close>

record container =
  scrollTop :: real
  scrollHeight :: real
  clientHeight :: real

definition scrollToBottom :: "container option \<Rightarrow> container option \<times> bool" where
  "scrollToBottom c =
     (case c of
        Some k \<Rightarrow> (Some (k\<lparr>scrollTop := scrollHeight k\<rparr>), True)
      | None \<Rightarrow> (None, False))"

definition scrollUp :: "container option \<Rightarrow> container option \<times> bool" where
  "scrollUp c =
     (case c of
        None \<Rightarrow> (None, False)
      | Some k \<Rightarrow>
          (Some (k\<lparr>scrollTop := max 0 (scrollTop k - clientHeight k * 0.8)\<rparr>), True))"

definition stopAutoScrolling :: "scraper \<Rightarrow> scraper" where
  "stopAutoScrolling s = s\<lparr>scrollInterval := False\<rparr>"

definition stopCrawling :: "scraper \<Rightarrow> scraper" where
  "stopCrawling s =
     (if \<not> sc_isCrawling s then s
      else (stopAutoScrolling (s\<lparr>sc_isCrawling := False\<rparr>))
             \<lparr>sent := sent s @
                [JObj [(''action'', JStr ''updateCrawlStatus''), (''isCrawling'', JBool False)]]\<rparr>)"

text \<open>\<^verbatim>\<open>container && container.scrollTop <= 10\<close>.\<close>

definition isAtTop :: "container option \<Rightarrow> bool" where
  "isAtTop c = (case c of None \<Rightarrow> False | Some k \<Rightarrow> scrollTop k \<le> 10)"

definition checkIfReachedTop :: "container option \<Rightarrow> scraper \<Rightarrow> bool \<times> scraper" where
  "checkIfReachedTop c s =
     (let currentMessageCount = size_of (processedMessageIds s)
      in if currentMessageCount = lastMessageCount s then
           let s1 = s\<lparr>noNewMessagesCount := noNewMessagesCount s + 1\<rparr>
           in if noNewMessagesCount s1 \<ge> NO_NEW_MESSAGES_THRESHOLD \<and> isAtTop c
              then (True, stopCrawling s1)
              else (False, s1)
         else (False, s\<lparr>noNewMessagesCount := 0, lastMessageCount := currentMessageCount\<rparr>))"

text \<open>
  \<^verbatim>\<open>startAutoScrolling\<close> runs on timers; each callback is a function here.
  \<open>startAutoScrolling\<close> is the call itself (the flag tells whether the first timer was
  set), \<open>autoScrollReady\<close> the callback one second later, \<open>performScrollCycle\<close> the
  scroll step up to its inner timer (it gives the count taken before scrolling when that
  timer is set, \<open>None\<close> when the step returned early), and \<open>settle\<close> the inner callback,
  which sees the service and the container as they are after the delay.
\<close>

definition startAutoScrolling ::
  "container option \<Rightarrow> scraper \<Rightarrow> container option \<times> bool" where
  "startAutoScrolling c s =
     (if scrollInterval s then (c, False) else (fst (scrollToBottom c), True))"

definition autoScrollReady :: "scraper \<Rightarrow> scraper" where
  "autoScrollReady s =
     s\<lparr>lastMessageCount := size_of (processedMessageIds s),
       noNewMessagesCount := 0,
       scrollInterval := True\<rparr>"

definition performScrollCycle ::
  "container option \<Rightarrow> scraper \<Rightarrow> (container option \<times> nat option) \<times> scraper" where
  "performScrollCycle c s =
     (if \<not> sc_isCrawling s then ((c, None), stopAutoScrolling s)
      else
        let beforeCount = size_of (processedMessageIds s);
            c' = fst (scrollUp c);
            scrolled = snd (scrollUp c)
        in if \<not> scrolled then
             let s1 = s\<lparr>noNewMessagesCount := noNewMessagesCount s + 1\<rparr>
             in if noNewMessagesCount s1 \<ge> NO_NEW_MESSAGES_THRESHOLD
                then ((c', None), stopCrawling s1)
                else ((c', Some beforeCount), s1)
           else ((c', Some beforeCount), s))"

definition settle :: "nat \<Rightarrow> container option \<Rightarrow> scraper \<Rightarrow> scraper" where
  "settle beforeCount c s =
     (let afterCount = size_of (processedMessageIds s)
      in if afterCount = beforeCount then
           let s1 = s\<lparr>noNewMessagesCount := noNewMessagesCount s + 1\<rparr>
           in if noNewMessagesCount s1 \<ge> NO_NEW_MESSAGES_THRESHOLD \<and> isAtTop c
              then stopCrawling s1
              else if sc_isCrawling s1 then s1\<lparr>scrollInterval := True\<rparr> else s1
         else
           let s1 = s\<lparr>noNewMessagesCount := 0, lastMessageCount := afterCount\<rparr>
           in if sc_isCrawling s1 then s1\<lparr>scrollInterval := True\<rparr> else s1)"

text \<open>
  One scroll cycle with nothing else happening during the delay: the step, then the settle
  callback on the container as found after the delay.
\<close>

definition scroll_cycle :: "container option \<Rightarrow> container option \<Rightarrow> scraper \<Rightarrow> scraper" where
  "scroll_cycle c c_after s =
     (case performScrollCycle c s of
        ((c', None), s1) \<Rightarrow> s1
      | ((c', Some beforeCount), s1) \<Rightarrow> settle beforeCount c_after s1)"

text \<open>
  \<^verbatim>\<open>startCrawling\<close>: take the slot, forget the processed ids, read the context, save
  what is rendered already (with \<^verbatim>\<open>updateLastCrawled: true\<close>), start scrolling.
\<close>

definition startCrawling ::
  "page \<Rightarrow> (nat \<Rightarrow> string) \<Rightarrow> container option \<Rightarrow> scraper \<Rightarrow> container option \<times> scraper" where
  "startCrawling pg clock c s =
     (if sc_isCrawling s then (c, s)
      else
        let s1 = updateContext pg (s\<lparr>sc_isCrawling := True, processedMessageIds := {}\<rparr>);
            existing = fst (extractExistingMessages pg clock s1);
            s2 = snd (extractExistingMessages pg clock s1);
            s3 = (if fst existing \<noteq> []
                  then s2\<lparr>sent := sent s2 @ [save_request (ctx s2) (snd existing) (fst existing)]\<rparr>
                  else s2)
        in (fst (startAutoScrolling c s3), s3))"


section \<open>The background worker's handlers\<close>

text \<open>
  \<^verbatim>\<open>storeUsers\<close> and \<^verbatim>\<open>storeMessages\<close>: one \<^verbatim>\<open>put\<close> per record that
  has its key; a record without one is passed over. A \<^verbatim>\<open>put\<close> that raises rejects
  the promise at once, and what was written before stays.
\<close>

fun storeAll :: "string \<Rightarrow> jsval list \<Rightarrow> store \<Rightarrow> idb_error option \<times> store" where
  "storeAll keyPath [] st = (None, st)"
| "storeAll keyPath (x # xs) st =
     (if \<not> truthy x \<or> \<not> truthy (field x keyPath) then storeAll keyPath xs st
      else case put keyPath x st of
             Inl e \<Rightarrow> (Some e, st)
           | Inr st' \<Rightarrow> storeAll keyPath xs st')"

definition storeUsers :: "jsval list \<Rightarrow> db \<Rightarrow> outcome" where
  "storeUsers us d =
     (fst (storeAll ''user_id'' us (users d)), d\<lparr>users := snd (storeAll ''user_id'' us (users d))\<rparr>)"

definition storeMessages :: "jsval list \<Rightarrow> db \<Rightarrow> outcome" where
  "storeMessages ms d =
     (fst (storeAll ''message_id'' ms (messages d)),
      d\<lparr>messages := snd (storeAll ''message_id'' ms (messages d))\<rparr>)"

text \<open>The elements of an array; a value that is no array counts as an empty one.\<close>

fun items :: "jsval \<Rightarrow> jsval list" where
  "items (JArr xs) = xs"
| "items v = []"

text \<open>\<^verbatim>\<open>o.k = v\<close> on an object.\<close>

fun set_field :: "jsval \<Rightarrow> string \<Rightarrow> jsval \<Rightarrow> jsval" where
  "set_field (JObj kvs) k v = JObj (AList.update k v kvs)"
| "set_field x k v = x"

text \<open>
  The \<^verbatim>\<open>saveToIndexedDB\<close> handler, at time \<open>now\<close>
  (\<^verbatim>\<open>new Date().toISOString()\<close>). \<open>stamped\<close> is \<^verbatim>\<open>request.channel\<close> after the
  handler has set its \<^verbatim>\<open>last_crawled_at\<close> for a request with
  \<^verbatim>\<open>updateLastCrawled\<close>.
\<close>

definition stamped :: "jsval \<Rightarrow> string \<Rightarrow> jsval" where
  "stamped request now =
     (if truthy (field request ''channel'') \<and> truthy (field (field request ''channel'') ''channel_id'')
         \<and> truthy (field request ''updateLastCrawled'')
      then set_field (field request ''channel'') ''last_crawled_at'' (JStr now)
      else field request ''channel'')"

definition save_all :: "jsval \<Rightarrow> string \<Rightarrow> db \<Rightarrow> outcome" where
  "save_all request now d =
     and_then
       (if truthy (field request ''server'') \<and> truthy (field (field request ''server'') ''server_id'')
        then storeServer (field request ''server'') d else (None, d))
       (\<lambda>d1. and_then
          (if truthy (field request ''channel'')
              \<and> truthy (field (field request ''channel'') ''channel_id'')
           then storeChannel (stamped request now) d1 else (None, d1))
          (\<lambda>d2. and_then
             (if items (field request ''users'') \<noteq> []
              then storeUsers (items (field request ''users'')) d2 else (None, d2))
             (\<lambda>d3. if items (field request ''messages'') \<noteq> []
                    then storeMessages (items (field request ''messages'')) d3 else (None, d3))))"

definition saveToIndexedDB ::
  "jsval \<Rightarrow> string \<Rightarrow> crawl_state \<times> db \<Rightarrow> response \<times> crawl_state \<times> db" where
  "saveToIndexedDB request now st =
     (case save_all request now (snd st) of
        (Some e, d') \<Rightarrow> (failed (error_message e), fst st, d')
      | (None, d') \<Rightarrow>
          let cs1 = (fst st)\<lparr>messageCount :=
                       messageCount (fst st) + int (length (items (field request ''messages'')))\<rparr>;
              cs2 = (if truthy (field request ''channel'')
                     then cs1\<lparr>currentChannel := field (stamped request now) ''channel_id'',
                              currentChannelName := field (stamped request now) ''channel_name''\<rparr>
                     else cs1);
              cs3 = (if truthy (field request ''server'')
                     then cs2\<lparr>currentServerName := field (field request ''server'') ''server_name''\<rparr>
                     else cs2)
          in (ok, cs3, d'))"

text \<open>
  The \<^verbatim>\<open>stopCrawl\<close> handler at time \<open>now\<close>. An error while stamping is caught and
  logged; so is one of the message to the content script, which the model leaves out.
\<close>

definition stamp_on_stop :: "string \<Rightarrow> crawl_state \<Rightarrow> db \<Rightarrow> db" where
  "stamp_on_stop now cs d =
     (if truthy (currentChannel cs) then
        (case getChannel (currentChannel cs) d of
           Inl e \<Rightarrow> d
         | Inr channel \<Rightarrow>
             if truthy channel
             then snd (storeChannel (set_field channel ''last_crawled_at'' (JStr now)) d)
             else d)
      else d)"

definition stopCrawl :: "string \<Rightarrow> crawl_state \<times> db \<Rightarrow> response \<times> crawl_state \<times> db" where
  "stopCrawl now st =
     (if \<not> isCrawling (fst st) then (failed ''No crawler is running'', st)
      else (ok, resetCrawlState (fst st), stamp_on_stop now (fst st) (snd st)))"

text \<open>
  The \<^verbatim>\<open>updateCrawlStatus\<close> handler. The content script sends
  \<^verbatim>\<open>isCrawling\<close> as a boolean and \<^verbatim>\<open>messageCount\<close> as a number; another value
  leaves the field as it is.
\<close>

definition updateCrawlStatus :: "jsval \<Rightarrow> crawl_state \<Rightarrow> response \<times> crawl_state" where
  "updateCrawlStatus request cs =
     (let cs1 = (case field request ''isCrawling'' of
                   JBool b \<Rightarrow> cs\<lparr>isCrawling := b\<rparr> | _ \<Rightarrow> cs);
          cs2 = (if truthy (field request ''channelName'')
                 then cs1\<lparr>currentChannelName := field request ''channelName''\<rparr> else cs1);
          cs3 = (if truthy (field request ''serverName'')
                 then cs2\<lparr>currentServerName := field request ''serverName''\<rparr> else cs2);
          cs4 = (if truthy (field request ''channelId'')
                 then cs3\<lparr>currentChannel := field request ''channelId''\<rparr> else cs3);
          cs5 = (case field request ''messageCount'' of
                   JNum n \<Rightarrow> cs4\<lparr>messageCount := n\<rparr> | _ \<Rightarrow> cs4)
      in (ok, cs5))"


section \<open>The relational export (exportDatabaseFromIndexedDB)\<close>

subsection \<open>The SQL engine\<close>

text \<open>
  The export fills a fresh SQLite database through sql.js, which is no part of the
  repository. The model keeps what the export relies on: a table is the list of its rows in
  insertion order; an \<^verbatim>\<open>AUTOINCREMENT\<close> id is the row's position, from 1; an insert
  that breaks a \<^verbatim>\<open>PRIMARY KEY\<close>, \<^verbatim>\<open>UNIQUE\<close> or \<^verbatim>\<open>NOT NULL\<close>
  constraint of the \<^verbatim>\<open>CREATE TABLE\<close> statements raises and adds no row; so does
  binding a value that sql.js cannot bind. Foreign keys are declared but not enforced, as
  SQLite leaves them unless \<^verbatim>\<open>PRAGMA foreign_keys\<close> is set, which the export never
  does. Of the column types, the conversion of a number to text in a \<^verbatim>\<open>TEXT\<close>
  column is modelled, since the uniqueness of ids depends on it; a blob is kept as the array
  it was bound from. The engine itself always loads and runs.
\<close>

datatype sqlval =
    SNull
  | SInt int
  | SText string
  | SBlob "jsval list"
  | SJson jsval   \<comment> \<open>the text \<^verbatim>\<open>JSON.stringify\<close> gives for the value, kept as the value\<close>

text \<open>
  What sql.js binds for a parameter: strings, numbers, booleans (as 0 and 1),
  \<^verbatim>\<open>null\<close>, and arrays (as blobs); \<^verbatim>\<open>undefined\<close> and plain objects raise.
\<close>

fun bind :: "jsval \<Rightarrow> sqlval option" where
  "bind (JStr s) = Some (SText s)"
| "bind (JNum n) = Some (SInt n)"
| "bind (JBool b) = Some (SInt (if b then 1 else 0))"
| "bind JNull = Some SNull"
| "bind (JArr xs) = Some (SBlob xs)"
| "bind JUndef = None"
| "bind (JObj kvs) = None"

text \<open>Decimal notation, for numbers put into text.\<close>

fun digits_of :: "nat \<Rightarrow> string" where
  "digits_of n =
     (if n < 10 then [char_of (48 + n)]
      else digits_of (n div 10) @ [char_of (48 + n mod 10)])"

definition show_int :: "int \<Rightarrow> string" where
  "show_int i = (if i < 0 then ''-'' @ digits_of (nat (- i)) else digits_of (nat i))"

text \<open>A column of type \<^verbatim>\<open>TEXT\<close> stores a number as its text.\<close>

fun text_affinity :: "sqlval \<Rightarrow> sqlval" where
  "text_affinity (SInt n) = SText (show_int n)"
| "text_affinity v = v"

text \<open>\<^verbatim>\<open>${v}\<close> in a template literal.\<close>

fun join :: "string \<Rightarrow> string list \<Rightarrow> string" where
  "join sep [] = []"
| "join sep [x] = x"
| "join sep (x # y # ys) = x @ sep @ join sep (y # ys)"

fun js_to_string :: "jsval \<Rightarrow> string" where
  "js_to_string JUndef = ''undefined''"
| "js_to_string JNull = ''null''"
| "js_to_string (JBool b) = (if b then ''true'' else ''false'')"
| "js_to_string (JNum n) = show_int n"
| "js_to_string (JStr s) = s"
| "js_to_string (JArr xs) =
     join '','' (map (\<lambda>x. if x = JUndef \<or> x = JNull then [] else js_to_string x) xs)"
| "js_to_string (JObj kvs) = ''[object Object]''"

fun str_of :: "jsval \<Rightarrow> string" where
  "str_of (JStr s) = s"
| "str_of v = []"

text \<open>
  A \<^verbatim>\<open>Map\<close> finds a key that is the same value; an array or an object is the same
  only as itself, and the records of a snapshot share none.
\<close>

fun is_primitive :: "jsval \<Rightarrow> bool" where
  "is_primitive (JArr xs) = False"
| "is_primitive (JObj kvs) = False"
| "is_primitive v = True"

definition map_get :: "(jsval \<rightharpoonup> int) \<Rightarrow> jsval \<Rightarrow> int option" where
  "map_get m k = (if is_primitive k then m k else None)"

subsection \<open>The tables\<close>

record user_row =
  ur_user_id :: string
  ur_username :: sqlval

record channel_row =
  cr_id :: int
  cr_name :: string
  cr_url :: string

record message_row =
  mr_id :: int
  mr_channel_id :: int
  mr_message_id :: sqlval
  mr_user_id :: sqlval
  mr_content :: string
  mr_timestamp :: sqlval
  mr_attachments :: string
  mr_reactions :: sqlval

record export_db =
  channels_t :: "channel_row list"
  users_t :: "user_row list"
  messages_t :: "message_row list"

record snapshot =
  s_users :: "jsval list option"
  s_channels :: "jsval list option"
  s_messages :: "jsval list option"

datatype export_error = No_data_to_export | No_valid_messages_could_be_exported

subsection \<open>The three loops\<close>

definition insert_user :: "user_row list \<Rightarrow> jsval \<Rightarrow> user_row list" where
  "insert_user rows user =
     (if \<not> truthy user \<or> \<not> is_string (field user ''user_id'') then rows
      else case bind (js_or (field user ''username'') JNull) of
             None \<Rightarrow> rows
           | Some name \<Rightarrow>
               if str_of (field user ''user_id'') \<in> ur_user_id ` set rows then rows
               else rows @ [\<lparr>ur_user_id = str_of (field user ''user_id''),
                              ur_username = text_affinity name\<rparr>])"

definition channel_url :: "jsval \<Rightarrow> string" where
  "channel_url channel =
     ''https://discord.com/channels/'' @ js_to_string (field channel ''server_id'')
       @ ''/'' @ js_to_string (field channel ''channel_id'')"

definition channel_name :: "jsval \<Rightarrow> string" where
  "channel_name channel =
     (if is_string (field channel ''channel_name'')
         \<and> trim (str_of (field channel ''channel_name'')) \<noteq> []
      then trim (str_of (field channel ''channel_name''))
      else ''Unknown'')"

definition insert_channel ::
  "channel_row list \<times> (jsval \<rightharpoonup> int) \<Rightarrow> jsval \<Rightarrow> channel_row list \<times> (jsval \<rightharpoonup> int)" where
  "insert_channel st channel =
     (if \<not> truthy channel \<or> \<not> truthy (field channel ''server_id'')
         \<or> \<not> truthy (field channel ''channel_id'') then st
      else if channel_url channel \<in> cr_url ` set (fst st) then st
      else (fst st @ [\<lparr>cr_id = int (length (fst st)) + 1,
                        cr_name = channel_name channel,
                        cr_url = channel_url channel\<rparr>],
            (snd st)(field channel ''channel_id'' \<mapsto> int (length (fst st)) + 1)))"

text \<open>The row a message becomes, under the surrogate id of its channel.\<close>

definition reactionsJson :: "jsval \<Rightarrow> sqlval" where
  "reactionsJson msg =
     (case field msg ''reactions'' of
        JArr xs \<Rightarrow> if xs \<noteq> [] then SJson (JArr xs) else SNull
      | _ \<Rightarrow> SNull)"

definition message_row_of :: "int \<Rightarrow> int \<Rightarrow> jsval \<Rightarrow> message_row option" where
  "message_row_of rowid channelId msg =
     (case bind (field msg ''message_id'') of
        None \<Rightarrow> None
      | Some mid \<Rightarrow>
          (case bind (js_or (field msg ''user_id'') JNull) of
             None \<Rightarrow> None
           | Some uid \<Rightarrow>
               Some \<lparr>mr_id = rowid,
                     mr_channel_id = channelId,
                     mr_message_id = text_affinity mid,
                     mr_user_id = text_affinity uid,
                     mr_content = (if is_string (field msg ''content'')
                                   then str_of (field msg ''content'') else []),
                     mr_timestamp = (if is_string (field msg ''timestamp'')
                                     then SText (str_of (field msg ''timestamp'')) else SNull),
                     mr_attachments = (if truthy (field msg ''has_attachments'') then ''Yes'' else []),
                     mr_reactions = reactionsJson msg\<rparr>))"

definition insert_message ::
  "(jsval \<rightharpoonup> int) \<Rightarrow> message_row list \<times> nat \<Rightarrow> jsval \<Rightarrow> message_row list \<times> nat" where
  "insert_message channelIdMap st msg =
     (if \<not> truthy msg \<or> \<not> truthy (field msg ''message_id'')
         \<or> \<not> truthy (field msg ''channel_id'') then st
      else case map_get channelIdMap (field msg ''channel_id'') of
             None \<Rightarrow> st
           | Some channelId \<Rightarrow>
               if channelId = 0 then st
               else (case message_row_of (int (length (fst st)) + 1) channelId msg of
                       None \<Rightarrow> st
                     | Some row \<Rightarrow>
                         if (mr_channel_id row, mr_message_id row)
                              \<in> (\<lambda>r. (mr_channel_id r, mr_message_id r)) ` set (fst st)
                         then st
                         else (fst st @ [row], snd st + 1)))"

definition or_empty :: "jsval list option \<Rightarrow> jsval list" where
  "or_empty xs = (case xs of None \<Rightarrow> [] | Some l \<Rightarrow> l)"

definition export_users :: "snapshot \<Rightarrow> user_row list" where
  "export_users snap = foldl insert_user [] (or_empty (s_users snap))"

definition export_channels :: "snapshot \<Rightarrow> channel_row list \<times> (jsval \<rightharpoonup> int)" where
  "export_channels snap = foldl insert_channel ([], Map.empty) (or_empty (s_channels snap))"

definition export_messages :: "snapshot \<Rightarrow> message_row list \<times> nat" where
  "export_messages snap =
     foldl (insert_message (snd (export_channels snap))) ([], 0) (or_empty (s_messages snap))"

definition exportDatabaseFromIndexedDB :: "snapshot option \<Rightarrow> export_error + export_db" where
  "exportDatabaseFromIndexedDB indexedDBData =
     (case indexedDBData of
        None \<Rightarrow> Inl No_data_to_export
      | Some snap \<Rightarrow>
          if or_empty (s_messages snap) = [] then Inl No_data_to_export
          else
            let exportedCount = snd (export_messages snap)
            in if exportedCount = 0 then Inl No_valid_messages_could_be_exported
               else Inr \<lparr>channels_t = fst (export_channels snap),
                         users_t = export_users snap,
                         messages_t = fst (export_messages snap)\<rparr>)"


section \<open>Notions the properties are stated with\<close>

text \<open>
  A \<open>last_crawled_at\<close> as the data model has it: \<^verbatim>\<open>null\<close> or a timestamp, which
  is a string that is not empty. All that matters is that the value is \<^verbatim>\<open>null\<close> or
  truthy: \<^verbatim>\<open>existing?.last_crawled_at || null\<close> keeps exactly those.
\<close>

definition null_or_truthy :: "jsval \<Rightarrow> bool" where
  "null_or_truthy v = (v = JNull \<or> truthy v)"

text \<open>A message the third loop passes over: malformed, or of a channel without surrogate id.\<close>

definition skipped :: "(jsval \<rightharpoonup> int) \<Rightarrow> jsval \<Rightarrow> bool" where
  "skipped channelIdMap msg =
     (\<not> truthy msg \<or> \<not> truthy (field msg ''message_id'') \<or> \<not> truthy (field msg ''channel_id'')
      \<or> map_get channelIdMap (field msg ''channel_id'') = None
      \<or> map_get channelIdMap (field msg ''channel_id'') = Some 0
      \<or> bind (field msg ''message_id'') = None
      \<or> bind (js_or (field msg ''user_id'') JNull) = None)"

definition well_formed_user :: "jsval \<Rightarrow> bool" where
  "well_formed_user u =
     (is_string (field u ''user_id'') \<and> bind (js_or (field u ''username'') JNull) \<noteq> None)"

definition well_formed_channel :: "jsval \<Rightarrow> bool" where
  "well_formed_channel ch =
     (truthy (field ch ''server_id'') \<and> truthy (field ch ''channel_id'')
      \<and> is_primitive (field ch ''channel_id''))"

definition well_formed_message :: "jsval \<Rightarrow> jsval \<Rightarrow> bool" where
  "well_formed_message cid msg =
     (is_string (field msg ''message_id'') \<and> truthy (field msg ''message_id'')
      \<and> field msg ''channel_id'' = cid
      \<and> bind (js_or (field msg ''user_id'') JNull) \<noteq> None)"

text \<open>The text a message id of a well-formed message is stored as.\<close>

definition message_key :: "jsval \<Rightarrow> sqlval" where
  "message_key msg = SText (str_of (field msg ''message_id''))"


section \<open>Example data\<close>

text \<open>Elements and states that the closed theorems below evaluate the model on.\<close>

definition plain_element ::
  "nat \<Rightarrow> string \<Rightarrow> string option \<Rightarrow> (selector \<Rightarrow> element option) \<Rightarrow> element" where
  "plain_element n tag i q =
     Element n tag (\<lambda>a. if a = ''id'' then i else None) [] [] [] [] None q (\<lambda>sel. []) (\<lambda>sel. None)"

definition avatar_img :: "string \<Rightarrow> element" where
  "avatar_img u =
     Element 0 ''IMG'' (\<lambda>a. None) u [] [] [] None (\<lambda>sel. None) (\<lambda>sel. []) (\<lambda>sel. None)"

definition fresh_scraper :: scraper where
  "fresh_scraper =
     \<lparr>sc_isCrawling = True, processedMessageIds = {}, scrollInterval = False,
      lastMessageCount = 0, noNewMessagesCount = 0,
      ctx = \<lparr>c_server_id = Some ''1'', c_server_name = Some ''srv'',
             c_channel_id = Some ''2'', c_channel_name = Some ''general''\<rparr>,
      sent = []\<rparr>"

definition empty_db :: db where
  "empty_db = \<lparr>servers = Map.empty, channels = Map.empty, users = Map.empty, messages = Map.empty\<rparr>"

definition author_li :: element where
  "author_li =
     plain_element 1 ''LI'' (Some ''chat-messages-2-5'')
       (\<lambda>sel. if sel \<in> {Img_avatars, Img_cdn_avatars, Img_discordapp_avatars}
              then Some (avatar_img ''https://cdn.discordapp.com/avatars/42/abc.webp'')
              else None)"

definition grouped_li :: element where
  "grouped_li = plain_element 2 ''LI'' (Some ''chat-messages-2-6'') (\<lambda>sel. None)"

definition nameless_li :: element where
  "nameless_li =
     plain_element 3 ''LI'' (Some ''chat-messages-2-7'')
       (\<lambda>sel. if sel = Span_id_message_username
              then Some (plain_element 4 ''SPAN'' (Some ''message-username-7'') (\<lambda>sel. None))
              else None)"

definition count_span :: "string \<Rightarrow> element" where
  "count_span t =
     Element 13 ''SPAN'' (\<lambda>a. None) [] t t [''reactionCount_abc''] None
       (\<lambda>sel. None) (\<lambda>sel. []) (\<lambda>sel. None)"

definition reaction_div :: "string \<Rightarrow> element" where
  "reaction_div t =
     Element 12 ''DIV'' (\<lambda>a. None) [] t [] [''reaction_abc''] None
       (\<lambda>sel. if sel = Class_reactionCount then Some (count_span t) else None)
       (\<lambda>sel. []) (\<lambda>sel. None)"

definition emoji_img :: "string \<Rightarrow> string \<Rightarrow> element" where
  "emoji_img name t =
     Element 11 ''IMG''
       (\<lambda>a. if a = ''data-name'' then Some name
             else if a = ''data-type'' then Some ''emoji'' else None)
       [] [] [] [''emoji''] None (\<lambda>sel. None) (\<lambda>sel. [])
       (\<lambda>sel. if sel = Class_reaction_only then Some (reaction_div t) else None)"

definition reactions_div :: "element list \<Rightarrow> element" where
  "reactions_div imgs =
     Element 10 ''DIV'' (\<lambda>a. if a = ''role'' then Some ''group'' else None) [] [] []
       [''reactions_abc''] None (\<lambda>sel. None)
       (\<lambda>sel. if sel = Img_emoji then imgs else []) (\<lambda>sel. None)"

definition reacted_li :: "element list \<Rightarrow> element" where
  "reacted_li imgs =
     plain_element 1 ''LI'' (Some ''chat-messages-2-5'')
       (\<lambda>sel. if sel \<in> {Group_class_reactions, Class_reactions}
              then Some (reactions_div imgs) else None)"

definition stalled_scraper :: scraper where
  "stalled_scraper = fresh_scraper\<lparr>noNewMessagesCount := 2, scrollInterval := True\<rparr>"

definition example_page :: page where
  "example_page =
     \<lparr>href = ''https://discord.com/channels/111/222'',
      document =
        Element 30 ''HTML'' (\<lambda>a. None) [] [] [] [] None
          (\<lambda>sel. if sel = Ol_chat_messages
                 then Some (Element 20 ''OL'' (\<lambda>a. None) [] [] [] [] None (\<lambda>sel. None)
                              (\<lambda>sel. if sel = Li_chat_messages
                                     then [plain_element 1 ''LI'' (Some ''chat-messages-222-5'')
                                             (\<lambda>sel. None)]
                                     else [])
                              (\<lambda>sel. None))
                 else None)
          (\<lambda>sel. []) (\<lambda>sel. None)\<rparr>"

definition idle_scraper :: scraper where
  "idle_scraper =
     \<lparr>sc_isCrawling = False, processedMessageIds = {}, scrollInterval = False,
      lastMessageCount = 0, noNewMessagesCount = 0,
      ctx = \<lparr>c_server_id = None, c_server_name = None,
             c_channel_id = None, c_channel_name = None\<rparr>,
      sent = []\<rparr>"

definition idle_crawl_state :: crawl_state where
  "idle_crawl_state =
     \<lparr>isCrawling = False, currentTabId = None, currentChannel = JNull,
      currentChannelName = JNull, currentServerName = JNull, messageCount = 0\<rparr>"

definition first_batch :: jsval where
  "first_batch =
     save_request
       \<lparr>c_server_id = Some ''111'', c_server_name = None,
        c_channel_id = Some ''222'', c_channel_name = None\<rparr>
       []
       [\<lparr>message_id = ''5'', channel_id = Some ''222'', user_id = None,
         timestamp = ''2025-12-16T10:00:00.000Z'', content = [], has_attachments = False,
         reactions = []\<rparr>]"

definition user_ana :: jsval where
  "user_ana = JObj [(''user_id'', JStr ''42''), (''username'', JStr ''ana''), (''avatar_url'', JNull)]"

definition user_bo :: jsval where
  "user_bo = JObj [(''user_id'', JStr ''43''), (''username'', JStr ''bo''), (''avatar_url'', JNull)]"

definition channel_general :: jsval where
  "channel_general =
     JObj [(''channel_id'', JStr ''222''), (''server_id'', JStr ''111''),
           (''channel_name'', JStr ''general''), (''last_crawled_at'', JNull)]"

definition stored_message :: "string \<Rightarrow> string \<Rightarrow> jsval \<Rightarrow> jsval" where
  "stored_message mid cid uid =
     JObj [(''message_id'', JStr mid), (''channel_id'', JStr cid), (''user_id'', uid),
           (''timestamp'', JStr ''2025-12-16T10:00:00.000Z''), (''content'', JStr ''hello''),
           (''has_attachments'', JBool False), (''reactions'', JArr [])]"

definition example_snapshot :: snapshot where
  "example_snapshot =
     \<lparr>s_users = Some [user_ana, user_bo],
      s_channels = Some [channel_general],
      s_messages = Some [stored_message ''5'' ''222'' (JStr ''42''),
                         stored_message ''6'' ''999'' (JStr ''43''),
                         stored_message ''7'' ''222'' JNull]\<rparr>"

definition orphan_snapshot :: snapshot where
  "orphan_snapshot =
     \<lparr>s_users = Some [user_ana],
      s_channels = Some [channel_general],
      s_messages = Some [stored_message ''6'' ''999'' (JStr ''42'')]\<rparr>"

definition empty_snapshot :: snapshot where
  "empty_snapshot = \<lparr>s_users = Some [user_ana], s_channels = Some [channel_general], s_messages = Some []\<rparr>"

definition grouped_page :: page where
  "grouped_page =
     \<lparr>href = ''https://discord.com/channels/1/2'',
      document =
        Element 30 ''HTML'' (\<lambda>a. None) [] [] [] [] None
          (\<lambda>sel. if sel = Ol_chat_messages
                 then Some (Element 20 ''OL'' (\<lambda>a. None) [] [] [] [] None (\<lambda>sel. None)
                              (\<lambda>sel. if sel = Li_chat_messages
                                     then [author_li, nameless_li, grouped_li]
                                     else [])
                              (\<lambda>sel. None))
                 else None)
          (\<lambda>sel. []) (\<lambda>sel. None)\<rparr>"

definition raw_id_page :: page where
  "raw_id_page =
     \<lparr>href = ''https://discord.com/channels/111/222'',
      document =
        Element 30 ''HTML'' (\<lambda>a. None) [] [] [] [] None
          (\<lambda>sel. if sel = Ol_chat_messages
                 then Some (Element 20 ''OL'' (\<lambda>a. None) [] [] [] [] None (\<lambda>sel. None)
                              (\<lambda>sel. if sel = Li_chat_messages
                                     then [plain_element 1 ''LI''
                                             (Some ''chat-messages-general-12'') (\<lambda>sel. None)]
                                     else [])
                              (\<lambda>sel. None))
                 else None)
          (\<lambda>sel. []) (\<lambda>sel. None)\<rparr>"

lemmas extractor_defs =
  parseMessage_def extractMessageId_def match_chat_message_def digits1_def is_digit_def
  hasMessageHeader_def header_user_id_def found_def Let_def extractUsername_def extractAvatarUrl_def
  or_else_def extractTimestamp_def extractContent_def hasAttachments_def extractReactions_def
  truthy_str_def size_of_def extractUserIdFromAvatar_def guild_avatar_at_def avatar_at_def
  nonempty_def attr_def text_of_def trim_def is_space_def



section \<open>Busy rejection\<close>

text \<open>
  C3. A \<^verbatim>\<open>startCrawl\<close> request that arrives while a crawl is active is answered with
  a failure, "Crawler is already running", and the whole crawl state, the current channel
  with it, is what it was, whatever the active tab is. The content script guards its own
  flag in the same way: \<^verbatim>\<open>startCrawling\<close> on a service that is crawling changes
  nothing.
\<close>

theorem startCrawl_busy:
  "(isCrawling cs \<longrightarrow>
      startCrawl query sendError cs = (failed ''Crawler is already running'', cs)
      \<and> success (fst (startCrawl query sendError cs)) = False
      \<and> currentChannel (snd (startCrawl query sendError cs)) = currentChannel cs)
   \<and> (sc_isCrawling s \<longrightarrow> startCrawling pg clock c s = (c, s))"
  by (simp add: startCrawl_def failed_def startCrawling_def)

theorem startCrawl_busy_witness:
  "isCrawling (idle_crawl_state\<lparr>isCrawling := True, currentTabId := Some 7,
                               currentChannel := JStr ''111''\<rparr>)
   \<and> startCrawl (Inr (Some \<lparr>tab_id = 9, url = Some ''https://discord.com/channels/1/222''\<rparr>)) None
       (idle_crawl_state\<lparr>isCrawling := True, currentTabId := Some 7,
                         currentChannel := JStr ''111''\<rparr>)
     = (\<lparr>success = False, error = Some ''Crawler is already running''\<rparr>,
        idle_crawl_state\<lparr>isCrawling := True, currentTabId := Some 7,
                         currentChannel := JStr ''111''\<rparr>)
   \<and> sc_isCrawling fresh_scraper
   \<and> startCrawling example_page (\<lambda>i. ''t'') None fresh_scraper = (None, fresh_scraper)"
proof -
  have run: "isCrawling (idle_crawl_state\<lparr>isCrawling := True, currentTabId := Some 7,
                               currentChannel := JStr ''111''\<rparr>)"
    and crawling: "sc_isCrawling fresh_scraper"
    by (simp_all add: fresh_scraper_def)
  from startCrawl_busy
    [of "idle_crawl_state\<lparr>isCrawling := True, currentTabId := Some 7,
                          currentChannel := JStr ''111''\<rparr>"
        "Inr (Some \<lparr>tab_id = 9, url = Some ''https://discord.com/channels/1/222''\<rparr>)" None
        fresh_scraper example_page "\<lambda>i. ''t''" None]
    run crawling
  show ?thesis by (simp add: failed_def)
qed


section \<open>Merge-on-write channel upsert\<close>

lemma field_props: "field v k = (case map_of (props v) k of Some x \<Rightarrow> x | None \<Rightarrow> JUndef)"
  by (cases v) simp_all

lemma truthy_field_obj: "truthy (field c k) \<Longrightarrow> truthy c"
  by (cases c) simp_all

lemma props_channelData:
  "map_of (props (channelData ex ch)) =
     (map_of (props ex) ++ map_of (props ch))(''last_crawled_at'' \<mapsto>
        (if field ch ''last_crawled_at'' \<noteq> JUndef then field ch ''last_crawled_at''
         else js_or (field ex ''last_crawled_at'') JNull))"
  by (simp add: channelData_def update_conv' merge_conv')

lemma field_channelData_id:
  "truthy (field ch ''channel_id'') \<Longrightarrow>
     field (channelData ex ch) ''channel_id'' = field ch ''channel_id''"
  apply (simp add: field_props[of "channelData ex ch"] props_channelData map_add_def)
  apply (simp add: field_props[of ch] split: option.splits)
  done

lemma storeChannel_eq:
  assumes "truthy (field ch ''channel_id'')" "valid_key (field ch ''channel_id'')"
  shows "storeChannel ch d =
     (None, d\<lparr>channels := (channels d)(field ch ''channel_id'' \<mapsto>
        channelData (case channels d (field ch ''channel_id'') of None \<Rightarrow> JUndef | Some r \<Rightarrow> r) ch)\<rparr>)"
  using assms truthy_field_obj[OF assms(1)]
  by (simp add: storeChannel_def get_def put_def field_channelData_id Let_def)

text \<open>
  C4. Two upserts of a channel (the same key \<open>cid\<close>), the second without a
  \<open>last_crawled_at\<close>: both succeed, the stored \<open>last_crawled_at\<close> after the second is
  the one the first left, every other field the second record lacks is kept, and every field
  it has is written. The same holds for the first upsert against what was stored before.
  The first record's \<open>last_crawled_at\<close>, when it has one, is a nullable timestamp.
\<close>

theorem storeChannel_merge_on_write:
  assumes cid: "truthy cid" "valid_key cid"
    and c1: "field c1 ''channel_id'' = cid"
    and c2: "field c2 ''channel_id'' = cid"
    and no_stamp: "field c2 ''last_crawled_at'' = JUndef"
    and typed: "field c1 ''last_crawled_at'' = JUndef
                \<or> null_or_truthy (field c1 ''last_crawled_at'')"
  shows "\<exists>d1 d2 r1 r2.
           storeChannel c1 d = (None, d1) \<and> storeChannel c2 d1 = (None, d2)
         \<and> channels d1 cid = Some r1 \<and> channels d2 cid = Some r2
         \<and> field r2 ''last_crawled_at'' = field r1 ''last_crawled_at''
         \<and> (\<forall>k. k \<noteq> ''last_crawled_at'' \<and> map_of (props c2) k = None
                \<longrightarrow> map_of (props r2) k = map_of (props r1) k)
         \<and> (\<forall>k v. k \<noteq> ''last_crawled_at'' \<and> map_of (props c2) k = Some v
                \<longrightarrow> map_of (props r2) k = Some v)
         \<and> (\<forall>r0 k. channels d cid = Some r0 \<and> k \<noteq> ''last_crawled_at''
                    \<and> map_of (props c1) k = None
                \<longrightarrow> map_of (props r1) k = map_of (props r0) k)"
  using assms
  apply (simp add: storeChannel_eq)
  apply (simp add: field_props[of "channelData a b" for a b] props_channelData)
  apply (auto simp: js_or_def null_or_truthy_def map_add_def)
  done

theorem storeChannel_merge_on_write_witness:
  "truthy (JStr ''222'') \<and> valid_key (JStr ''222'')
   \<and> null_or_truthy (JStr ''2025-12-16T10:00:00.000Z'')
   \<and> (\<exists>d1 d2 r1 r2.
         storeChannel
           (JObj [(''channel_id'', JStr ''222''), (''server_id'', JStr ''111''),
                  (''channel_name'', JStr ''general''),
                  (''last_crawled_at'', JStr ''2025-12-16T10:00:00.000Z'')]) empty_db = (None, d1)
       \<and> storeChannel
           (JObj [(''channel_id'', JStr ''222''), (''channel_name'', JStr ''renamed'')]) d1 = (None, d2)
       \<and> channels d1 (JStr ''222'') = Some r1 \<and> channels d2 (JStr ''222'') = Some r2
       \<and> field r1 ''last_crawled_at'' = JStr ''2025-12-16T10:00:00.000Z''
       \<and> field r2 ''last_crawled_at'' = JStr ''2025-12-16T10:00:00.000Z''
       \<and> map_of (props r2) ''server_id'' = Some (JStr ''111'')
       \<and> map_of (props r2) ''channel_name'' = Some (JStr ''renamed''))"
proof -
  let ?c1 = "JObj [(''channel_id'', JStr ''222''), (''server_id'', JStr ''111''),
                  (''channel_name'', JStr ''general''),
                  (''last_crawled_at'', JStr ''2025-12-16T10:00:00.000Z'')]"
  let ?c2 = "JObj [(''channel_id'', JStr ''222''), (''channel_name'', JStr ''renamed'')]"
  have t: "null_or_truthy (JStr ''2025-12-16T10:00:00.000Z'')"
    by (simp add: null_or_truthy_def)
  from storeChannel_merge_on_write[of "JStr ''222''" ?c1 ?c2 empty_db] t
  obtain d1 d2 r1 r2 where h:
    "storeChannel ?c1 empty_db = (None, d1)" "storeChannel ?c2 d1 = (None, d2)"
    "channels d1 (JStr ''222'') = Some r1" "channels d2 (JStr ''222'') = Some r2"
    "field r2 ''last_crawled_at'' = field r1 ''last_crawled_at''"
    "\<forall>k. k \<noteq> ''last_crawled_at'' \<and> map_of (props ?c2) k = None
          \<longrightarrow> map_of (props r2) k = map_of (props r1) k"
    "\<forall>k v. k \<noteq> ''last_crawled_at'' \<and> map_of (props ?c2) k = Some v
          \<longrightarrow> map_of (props r2) k = Some v"
    by auto
  have r1: "r1 = channelData JUndef ?c1"
    using h(1,3) by (simp add: storeChannel_eq empty_db_def) auto
  have a: "field r1 ''last_crawled_at'' = JStr ''2025-12-16T10:00:00.000Z''"
    and b: "map_of (props r1) ''server_id'' = Some (JStr ''111'')"
    unfolding r1 by (simp_all add: channelData_def)
  from h(6) b have "map_of (props r2) ''server_id'' = Some (JStr ''111'')" by simp
  moreover from h(7) have "map_of (props r2) ''channel_name'' = Some (JStr ''renamed'')" by simp
  ultimately show ?thesis using h a t by auto
qed


section \<open>The extractor: identity, dedup and grouped messages\<close>

lemma parseMessage_processed:
  "extractMessageId e = Some mid \<Longrightarrow> mid \<in> processedMessageIds s \<Longrightarrow>
     parseMessage (Some e) a n s = (None, s)"
  by (simp add: parseMessage_def)

lemma parseMessage_Some:
  assumes "parseMessage (Some e) a n s = (Some r, s1)"
  shows "tagName e = ''LI''"
    and "extractMessageId e = Some (message_id (p_message r))"
    and "message_id (p_message r) \<notin> processedMessageIds s"
    and "processedMessageIds s1 = insert (message_id (p_message r)) (processedMessageIds s)"
    and "user_id (p_message r) = (if hasMessageHeader e then header_user_id e else a)"
    and "p_user r = None \<longleftrightarrow> \<not> truthy_str (user_id (p_message r))"
  using assms
  by (auto simp: parseMessage_def Let_def split: option.splits if_splits)

lemma parseMessage_fresh:
  assumes "tagName e = ''LI''" "extractMessageId e = Some mid" "mid \<notin> processedMessageIds s"
  shows "\<exists>r s1. parseMessage (Some e) a n s = (Some r, s1) \<and> message_id (p_message r) = mid"
  using assms by (simp add: parseMessage_def Let_def)

text \<open>
  C8. Once an element has been extracted, an element with the same message id gives
  \<^verbatim>\<open>null\<close> for as long as the set of processed ids has not been reset (it only grows
  within a session), and leaves the service as it is. An element that is no list item or
  has no id gives \<^verbatim>\<open>null\<close> as well, and so does no element at all.
\<close>

theorem parseMessage_dedup:
  "(parseMessage (Some e1) a1 n1 s = (Some r, s1)
      \<and> extractMessageId e2 = extractMessageId e1
      \<and> processedMessageIds s1 \<subseteq> processedMessageIds s2
    \<longrightarrow> parseMessage (Some e2) a2 n2 s2 = (None, s2))
   \<and> (tagName e \<noteq> ''LI'' \<or> getAttribute e ''id'' = None \<or> getAttribute e ''id'' = Some []
    \<longrightarrow> parseMessage (Some e) a n s' = (None, s'))
   \<and> parseMessage None a n s' = (None, s')"
proof (intro conjI impI)
  assume h: "parseMessage (Some e1) a1 n1 s = (Some r, s1)
      \<and> extractMessageId e2 = extractMessageId e1
      \<and> processedMessageIds s1 \<subseteq> processedMessageIds s2"
  then have "extractMessageId e2 = Some (message_id (p_message r))"
    and "message_id (p_message r) \<in> processedMessageIds s2"
    using parseMessage_Some(2,4)[of e1 a1 n1 s r s1] by auto
  then show "parseMessage (Some e2) a2 n2 s2 = (None, s2)"
    by (rule parseMessage_processed)
next
  assume "tagName e \<noteq> ''LI'' \<or> getAttribute e ''id'' = None \<or> getAttribute e ''id'' = Some []"
  then show "parseMessage (Some e) a n s' = (None, s')"
    by (auto simp: parseMessage_def extractMessageId_def)
next
  show "parseMessage None a n s' = (None, s')"
    by (simp add: parseMessage_def)
qed

lemma first_parse_example:
  "parseMessage (Some (plain_element 1 ''LI'' (Some ''chat-messages-2-5'') (\<lambda>sel. None)))
     None ''t'' fresh_scraper
   = (Some \<lparr>p_message = \<lparr>message_id = ''5'', channel_id = Some ''2'', user_id = None,
                          timestamp = ''t'', content = [], has_attachments = False,
                          reactions = []\<rparr>,
            p_user = None\<rparr>,
      fresh_scraper\<lparr>processedMessageIds := {''5''}\<rparr>)"
  by (simp add: extractor_defs plain_element_def fresh_scraper_def)

theorem parseMessage_dedup_witness:
  "parseMessage (Some (plain_element 1 ''LI'' (Some ''chat-messages-2-5'') (\<lambda>sel. None)))
     None ''t'' fresh_scraper
   = (Some \<lparr>p_message = \<lparr>message_id = ''5'', channel_id = Some ''2'', user_id = None,
                          timestamp = ''t'', content = [], has_attachments = False,
                          reactions = []\<rparr>,
            p_user = None\<rparr>,
      fresh_scraper\<lparr>processedMessageIds := {''5''}\<rparr>)
   \<and> parseMessage (Some (plain_element 2 ''LI'' (Some ''chat-messages-2-5'') (\<lambda>sel. None)))
        (Some ''42'') ''u'' (fresh_scraper\<lparr>processedMessageIds := {''5''}\<rparr>)
     = (None, fresh_scraper\<lparr>processedMessageIds := {''5''}\<rparr>)
   \<and> parseMessage (Some (plain_element 3 ''DIV'' (Some ''chat-messages-2-6'') (\<lambda>sel. None)))
        None ''t'' fresh_scraper
     = (None, fresh_scraper)"
  using parseMessage_dedup
    [of "plain_element 1 ''LI'' (Some ''chat-messages-2-5'') (\<lambda>sel. None)" None "''t''" fresh_scraper
        "\<lparr>p_message = \<lparr>message_id = ''5'', channel_id = Some ''2'', user_id = None,
                        timestamp = ''t'', content = [], has_attachments = False,
                        reactions = []\<rparr>,
          p_user = None\<rparr>"
        "fresh_scraper\<lparr>processedMessageIds := {''5''}\<rparr>"
        "plain_element 2 ''LI'' (Some ''chat-messages-2-5'') (\<lambda>sel. None)"
        "fresh_scraper\<lparr>processedMessageIds := {''5''}\<rparr>"
        "Some ''42''" "''u''"
        "plain_element 3 ''DIV'' (Some ''chat-messages-2-6'') (\<lambda>sel. None)" None "''t''" fresh_scraper]
    first_parse_example
  by (simp add: extractMessageId_def plain_element_def)

text \<open>
  What one round of the pass does: an element that \<^verbatim>\<open>parseMessage\<close> rejects leaves
  the pass and the service as they are; an element with a new id adds one message, and
  sets the accumulator when that message has a user id.
\<close>

lemma parseMessage_None_same: "parseMessage e a n s = (None, s') \<Longrightarrow> s' = s"
  by (auto simp: parseMessage_def Let_def split: option.splits if_splits)

lemma extract_step_rejected:
  "fst (parseMessage (Some e) (lastSeenAuthorId p) (clock i) s) = None \<Longrightarrow>
     extract_step clock (p, s) (e, i) = (p, s)"
  using parseMessage_None_same[of "Some e" "lastSeenAuthorId p" "clock i" s]
  by (cases "parseMessage (Some e) (lastSeenAuthorId p) (clock i) s") auto

lemma extract_step_extracted:
  assumes "tagName e = ''LI''" "extractMessageId e = Some mid" "mid \<notin> processedMessageIds s"
  shows "\<exists>p1 s1 m. extract_step clock (p, s) (e, i) = (p1, s1)
           \<and> found_messages p1 = found_messages p @ [m]
           \<and> lastSeenAuthorId p1
               = (if truthy_str (user_id m) then user_id m else lastSeenAuthorId p)
           \<and> message_id m = mid
           \<and> user_id m = (if hasMessageHeader e then header_user_id e else lastSeenAuthorId p)
           \<and> processedMessageIds s1 = insert mid (processedMessageIds s)"
proof -
  from parseMessage_fresh[OF assms, of "lastSeenAuthorId p" "clock i"]
  obtain r s1 where pm: "parseMessage (Some e) (lastSeenAuthorId p) (clock i) s = (Some r, s1)"
    and mid: "message_id (p_message r) = mid" by blast
  from parseMessage_Some(4,5)[OF pm] mid pm show ?thesis by simp
qed

lemma extract_step_either:
  "extract_step clock (p, s) (e, i) = (p, s)
   \<or> (\<exists>p1 s1 m mid. extract_step clock (p, s) (e, i) = (p1, s1)
         \<and> found_messages p1 = found_messages p @ [m]
         \<and> lastSeenAuthorId p1
             = (if truthy_str (user_id m) then user_id m else lastSeenAuthorId p)
         \<and> user_id m = (if hasMessageHeader e then header_user_id e else lastSeenAuthorId p)
         \<and> extractMessageId e = Some mid
         \<and> processedMessageIds s1 = insert mid (processedMessageIds s))"
proof (cases "fst (parseMessage (Some e) (lastSeenAuthorId p) (clock i) s)")
  case None
  from extract_step_rejected[of e p clock i s] None show ?thesis by blast
next
  case (Some r)
  then obtain s1 where pm: "parseMessage (Some e) (lastSeenAuthorId p) (clock i) s = (Some r, s1)"
    by (cases "parseMessage (Some e) (lastSeenAuthorId p) (clock i) s") auto
  from parseMessage_Some(2,4,5)[OF pm] pm show ?thesis by simp
qed

declare extract_step.simps [simp del]

lemma pass_processed:
  "processedMessageIds s \<subseteq> processedMessageIds (snd (foldl (extract_step clock) (p, s) ps))
   \<and> processedMessageIds (snd (foldl (extract_step clock) (p, s) ps))
       \<subseteq> processedMessageIds s \<union> {i. Some i \<in> extractMessageId ` fst ` set ps}"
proof (induction ps arbitrary: p s)
  case Nil
  then show ?case by simp
next
  case (Cons x xs)
  obtain e i where x: "x = (e, i)" by (cases x)
  obtain p1 s1 where st: "extract_step clock (p, s) (e, i) = (p1, s1)"
    by (cases "extract_step clock (p, s) (e, i)")
  from extract_step_either[of clock p s e i] st
  have grow: "processedMessageIds s \<subseteq> processedMessageIds s1"
    and bound: "processedMessageIds s1 \<subseteq> processedMessageIds s \<union> {i. Some i = extractMessageId e}"
    by auto
  from Cons.IH[where p = p1 and s = s1] grow bound show ?case
    unfolding x by (simp add: st) blast
qed

lemma pass_appends:
  "\<exists>ms. found_messages (fst (foldl (extract_step clock) (p, s) ps)) = found_messages p @ ms"
proof (induction ps arbitrary: p s)
  case Nil
  then show ?case by simp
next
  case (Cons x xs)
  obtain e i where x: "x = (e, i)" by (cases x)
  obtain p1 s1 where st: "extract_step clock (p, s) (e, i) = (p1, s1)"
    by (cases "extract_step clock (p, s) (e, i)")
  from extract_step_either[of clock p s e i] st
  obtain m0 where "found_messages p1 = found_messages p @ m0" by auto
  with Cons.IH[where p = p1 and s = s1] show ?case unfolding x by (auto simp: st)
qed

lemma split_pairs:
  assumes "map fst ps = pre @ x # rest"
  shows "\<exists>ps1 i ps2. ps = ps1 @ (x, i) # ps2 \<and> map fst ps1 = pre \<and> map fst ps2 = rest"
proof -
  from assms obtain ps1 ps' where a: "ps = ps1 @ ps'" "map fst ps1 = pre" "map fst ps' = x # rest"
    by (auto simp: map_eq_append_conv)
  from a(3) obtain q ps2 where b: "ps' = q # ps2" "fst q = x" "map fst ps2 = rest"
    by (auto simp: map_eq_Cons_conv)
  then have "q = (x, snd q)" by (cases q) simp
  with a b show ?thesis by metis
qed

lemma pass_extracts:
  assumes "map fst ps = pre @ e # post"
    and "tagName e = ''LI''" "extractMessageId e = Some mid"
    and "mid \<notin> processedMessageIds s" "Some mid \<notin> extractMessageId ` set pre"
  shows "\<exists>ms1 m ms2. found_messages (fst (foldl (extract_step clock) (p, s) ps))
                        = found_messages p @ ms1 @ m # ms2
           \<and> message_id m = mid
           \<and> mid \<in> processedMessageIds (snd (foldl (extract_step clock) (p, s) ps))"
proof -
  from split_pairs[OF assms(1)] obtain ps1 i ps2 where
    ps: "ps = ps1 @ (e, i) # ps2" "map fst ps1 = pre" by blast
  obtain p1 s1 where st1: "foldl (extract_step clock) (p, s) ps1 = (p1, s1)"
    by (cases "foldl (extract_step clock) (p, s) ps1")
  from pass_appends[of clock p s ps1] st1 obtain ms1 where
    m1: "found_messages p1 = found_messages p @ ms1" by auto
  have "fst ` set ps1 = set pre" using ps(2) by (metis set_map)
  with pass_processed[of s clock p ps1] st1 assms(4,5)
  have fresh: "mid \<notin> processedMessageIds s1" by auto
  from extract_step_extracted[OF assms(2,3) fresh, of clock p1 i]
  obtain p2 s2 m where st2: "extract_step clock (p1, s1) (e, i) = (p2, s2)"
    "found_messages p2 = found_messages p1 @ [m]" "message_id m = mid"
    "processedMessageIds s2 = insert mid (processedMessageIds s1)" by blast
  from pass_appends[of clock p2 s2 ps2] obtain ms2 where
    m2: "found_messages (fst (foldl (extract_step clock) (p2, s2) ps2)) = found_messages p2 @ ms2"
    by blast
  from pass_processed[of s2 clock p2 ps2] st2(4)
  have "mid \<in> processedMessageIds (snd (foldl (extract_step clock) (p2, s2) ps2))" by auto
  moreover have "found_messages (fst (foldl (extract_step clock) (p, s) ps))
      = found_messages p @ ms1 @ m # ms2"
    unfolding ps(1) using m1 m2 st2(2) by (simp add: st1 st2(1))
  moreover have "snd (foldl (extract_step clock) (p, s) ps)
      = snd (foldl (extract_step clock) (p2, s2) ps2)"
    unfolding ps(1) by (simp add: st1 st2(1))
  ultimately show ?thesis using st2(3) by metis
qed

lemma pass_unresolved_all:
  assumes "\<forall>e \<in> fst ` set ps. tagName e = ''LI'' \<and> hasMessageHeader e \<and> header_user_id e = None"
    and "map extractMessageId (map fst ps) = map Some ids" and "distinct ids"
    and "set ids \<inter> processedMessageIds s = {}"
  shows "lastSeenAuthorId (fst (foldl (extract_step clock) (p, s) ps)) = lastSeenAuthorId p
       \<and> processedMessageIds (snd (foldl (extract_step clock) (p, s) ps))
           = processedMessageIds s \<union> set ids
       \<and> (\<exists>ms. found_messages (fst (foldl (extract_step clock) (p, s) ps)) = found_messages p @ ms
              \<and> map message_id ms = ids \<and> (\<forall>m \<in> set ms. user_id m = None))"
  using assms
proof (induction ps arbitrary: p s ids)
  case Nil
  then show ?case by simp
next
  case (Cons x xs)
  obtain e i where x: "x = (e, i)" by (cases x)
  from Cons.prems(2) x obtain i0 ids' where ids: "ids = i0 # ids'"
    "extractMessageId e = Some i0" "map extractMessageId (map fst xs) = map Some ids'"
    by (cases ids) auto
  from Cons.prems(1) x have e: "tagName e = ''LI''" "hasMessageHeader e" "header_user_id e = None"
    by simp_all
  from Cons.prems(4) ids(1) have fresh: "i0 \<notin> processedMessageIds s" by auto
  from extract_step_extracted[OF e(1) ids(2) fresh, of clock p i] e(2,3)
  obtain p1 s1 m where st: "extract_step clock (p, s) (e, i) = (p1, s1)"
    "found_messages p1 = found_messages p @ [m]" "lastSeenAuthorId p1 = lastSeenAuthorId p"
    "message_id m = i0" "user_id m = None"
    "processedMessageIds s1 = insert i0 (processedMessageIds s)"
    by (auto simp: truthy_str_def)
  have h1: "\<forall>e \<in> fst ` set xs. tagName e = ''LI'' \<and> hasMessageHeader e \<and> header_user_id e = None"
    using Cons.prems(1) by simp
  have h3: "distinct ids'" using Cons.prems(3) ids(1) by simp
  have h4: "set ids' \<inter> processedMessageIds s1 = {}"
    using Cons.prems(3,4) ids(1) st(6) by auto
  from Cons.IH[OF h1 ids(3) h3 h4, where p = p1] obtain ms where
    ih: "lastSeenAuthorId (fst (foldl (extract_step clock) (p1, s1) xs)) = lastSeenAuthorId p1"
      "processedMessageIds (snd (foldl (extract_step clock) (p1, s1) xs))
         = processedMessageIds s1 \<union> set ids'"
      "found_messages (fst (foldl (extract_step clock) (p1, s1) xs)) = found_messages p1 @ ms"
      "map message_id ms = ids'" "\<forall>m \<in> set ms. user_id m = None" by blast
  have "found_messages (fst (foldl (extract_step clock) (p, s) (x # xs))) = found_messages p @ (m # ms)
        \<and> map message_id (m # ms) = ids \<and> (\<forall>m' \<in> set (m # ms). user_id m' = None)"
    unfolding x using ih(3,4,5) st(2,4,5) ids(1) by (simp add: st(1))
  then have ex: "\<exists>ms. found_messages (fst (foldl (extract_step clock) (p, s) (x # xs)))
                     = found_messages p @ ms
              \<and> map message_id ms = ids \<and> (\<forall>m \<in> set ms. user_id m = None)" by blast
  have "lastSeenAuthorId (fst (foldl (extract_step clock) (p, s) (x # xs))) = lastSeenAuthorId p"
    unfolding x using ih(1) st(3) by (simp add: st(1))
  moreover have "processedMessageIds (snd (foldl (extract_step clock) (p, s) (x # xs)))
           = processedMessageIds s \<union> set ids"
    unfolding x using ih(2) st(6) ids(1) by (simp add: st(1))
  ultimately show ?case using ex by blast
qed

lemma pass_inherits_all:
  assumes "map fst ps = pre @ a # mid @ b # post"
    and a: "tagName a = ''LI''" "extractMessageId a = Some ida"
      "hasMessageHeader a" "header_user_id a = Some u" "u \<noteq> []"
    and mid: "\<forall>h \<in> set mid. tagName h = ''LI'' \<and> hasMessageHeader h \<and> header_user_id h = None"
      "map extractMessageId mid = map Some idm"
    and b: "tagName b = ''LI''" "extractMessageId b = Some idb" "\<not> hasMessageHeader b"
    and fresh: "distinct (ida # idm @ [idb])"
      "set (ida # idm @ [idb]) \<inter> processedMessageIds s = {}"
      "\<forall>i \<in> set (ida # idm @ [idb]). Some i \<notin> extractMessageId ` set pre"
  shows "\<exists>ms1 ma msm mb ms2.
           found_messages (fst (foldl (extract_step clock) (p, s) ps))
             = found_messages p @ ms1 @ ma # msm @ mb # ms2
         \<and> message_id ma = ida \<and> user_id ma = Some u
         \<and> map message_id msm = idm \<and> (\<forall>m \<in> set msm. user_id m = None)
         \<and> message_id mb = idb \<and> user_id mb = Some u"
proof -
  from split_pairs[OF assms(1)] obtain ps1 i rest where
    ps: "ps = ps1 @ (a, i) # rest" "map fst ps1 = pre" "map fst rest = mid @ b # post" by blast
  from split_pairs[OF ps(3)] obtain psm j ps2 where
    rest: "rest = psm @ (b, j) # ps2" "map fst psm = mid" by blast
  have sets: "fst ` set ps1 = set pre" "fst ` set psm = set mid"
    using ps(2) rest(2) by (metis set_map)+
  obtain p1 s1 where st1: "foldl (extract_step clock) (p, s) ps1 = (p1, s1)"
    by (cases "foldl (extract_step clock) (p, s) ps1")
  from pass_appends[of clock p s ps1] st1 obtain ms1 where
    m1: "found_messages p1 = found_messages p @ ms1" by auto
  from pass_processed[of s clock p ps1] st1 sets(1) fresh(2,3)
  have fresh1: "set (ida # idm @ [idb]) \<inter> processedMessageIds s1 = {}"
    by (simp add: disjoint_iff subset_iff) (metis imageI)
  then have fa: "ida \<notin> processedMessageIds s1" by simp
  from extract_step_extracted[OF a(1,2) fa, of clock p1 i] a(3,4,5)
  obtain p2 s2 ma where st2: "extract_step clock (p1, s1) (a, i) = (p2, s2)"
    "found_messages p2 = found_messages p1 @ [ma]" "message_id ma = ida"
    "user_id ma = Some u" "lastSeenAuthorId p2 = Some u"
    "processedMessageIds s2 = insert ida (processedMessageIds s1)"
    by (auto simp: truthy_str_def)
  obtain p3 s3 where st3: "foldl (extract_step clock) (p2, s2) psm = (p3, s3)"
    by (cases "foldl (extract_step clock) (p2, s2) psm")
  have hm: "\<forall>e \<in> fst ` set psm. tagName e = ''LI'' \<and> hasMessageHeader e \<and> header_user_id e = None"
    using mid(1) sets(2) by simp
  have im: "map extractMessageId (map fst psm) = map Some idm"
    using mid(2) rest(2) by simp
  have dm: "distinct idm" using fresh(1) by simp
  have fm: "set idm \<inter> processedMessageIds s2 = {}"
    using fresh1 fresh(1) st2(6) by auto
  from pass_unresolved_all[OF hm im dm fm, of clock p2] st3 st2(5)
  obtain msm where m3: "lastSeenAuthorId p3 = Some u"
    "processedMessageIds s3 = processedMessageIds s2 \<union> set idm"
    "found_messages p3 = found_messages p2 @ msm" "map message_id msm = idm"
    "\<forall>m \<in> set msm. user_id m = None"
    by auto
  have fresh3: "idb \<notin> processedMessageIds s3"
    using m3(2) st2(6) fresh1 fresh(1) by auto
  from extract_step_extracted[OF b(1,2) fresh3, of clock p3 j] b(3) m3(1)
  obtain p4 s4 mb where st4: "extract_step clock (p3, s3) (b, j) = (p4, s4)"
    "found_messages p4 = found_messages p3 @ [mb]" "message_id mb = idb"
    "user_id mb = Some u"
    by auto
  from pass_appends[of clock p4 s4 ps2] obtain ms2 where
    m5: "found_messages (fst (foldl (extract_step clock) (p4, s4) ps2)) = found_messages p4 @ ms2"
    by blast
  have "found_messages (fst (foldl (extract_step clock) (p, s) ps))
          = found_messages p @ ms1 @ ma # msm @ mb # ms2"
    unfolding ps(1) rest(1) using m1 st2(2) m3(3) st4(2) m5
    by (simp add: st1 st2(1) st3 st4(1))
  with st2(3,4) m3(4,5) st4(3,4) show ?thesis by blast
qed

lemma map_fst_zip_upt: "map fst (zip es [0 ..< length es]) = es"
  by simp

lemma extractExistingMessages_pass:
  "querySelector (document pg) Ol_chat_messages = Some chatList \<Longrightarrow>
     fst (fst (extractExistingMessages pg clock s))
       = found_messages (fst (foldl (extract_step clock)
           (\<lparr>lastSeenAuthorId = None, found_messages = [], found_users = []\<rparr>, s)
           (zip (querySelectorAll chatList Li_chat_messages)
                [0 ..< length (querySelectorAll chatList Li_chat_messages)])))"
  by (simp add: extractExistingMessages_def Let_def)

text \<open>
  C7. The pass of \<^verbatim>\<open>extractExistingMessages\<close> over the rendered list items, with the
  accumulator \<open>lastSeenAuthorId\<close> it carries. Let an item \<open>a\<close> with an author header
  that resolves to the user id \<open>u\<close> (say "42") be followed by items \<open>mid\<close> whose
  header resolves to no user id, and then by an item \<open>b\<close> without author header, all
  with message ids that differ and are new to the session, so that each of them is
  extracted. Then the messages found contain, in this order, the message of \<open>a\<close> with
  user id \<open>u\<close>, one message for each item of \<open>mid\<close> with \<open>user_id\<close>
  \<^verbatim>\<open>null\<close>, and the message of \<open>b\<close> with user id \<open>u\<close>: the header-less
  item inherits the id the accumulator got at \<open>a\<close>, which the items in between, having
  no resolvable user id, did not change. With \<open>mid\<close> empty, \<open>b\<close> follows
  \<open>a\<close> at once.
\<close>

theorem grouped_message_inheritance:
  assumes "querySelector (document pg) Ol_chat_messages = Some chatList"
    and "querySelectorAll chatList Li_chat_messages = pre @ a # mid @ b # post"
    and "tagName a = ''LI''" "extractMessageId a = Some ida"
      "hasMessageHeader a" "header_user_id a = Some u" "u \<noteq> []"
    and "\<forall>h \<in> set mid. tagName h = ''LI'' \<and> hasMessageHeader h \<and> header_user_id h = None"
      "map extractMessageId mid = map Some idm"
    and "tagName b = ''LI''" "extractMessageId b = Some idb" "\<not> hasMessageHeader b"
    and "distinct (ida # idm @ [idb])"
      "set (ida # idm @ [idb]) \<inter> processedMessageIds s = {}"
      "\<forall>i \<in> set (ida # idm @ [idb]). Some i \<notin> extractMessageId ` set pre"
  shows "\<exists>ms1 ma msm mb ms2.
           fst (fst (extractExistingMessages pg clock s)) = ms1 @ ma # msm @ mb # ms2
         \<and> message_id ma = ida \<and> user_id ma = Some u
         \<and> map message_id msm = idm \<and> (\<forall>m \<in> set msm. user_id m = None)
         \<and> message_id mb = idb \<and> user_id mb = Some u"
proof -
  let ?es = "querySelectorAll chatList Li_chat_messages"
  have "map fst (zip ?es [0 ..< length ?es]) = pre @ a # mid @ b # post"
    using assms(2) map_fst_zip_upt[of ?es] by simp
  from pass_inherits_all[OF this assms(3-15),
      of clock "\<lparr>lastSeenAuthorId = None, found_messages = [], found_users = []\<rparr>"]
  show ?thesis unfolding extractExistingMessages_pass[OF assms(1)] by simp
qed

lemma grouped_page_list:
  "querySelector (document grouped_page) Ol_chat_messages
     = Some (Element 20 ''OL'' (\<lambda>a. None) [] [] [] [] None (\<lambda>sel. None)
               (\<lambda>sel. if sel = Li_chat_messages then [author_li, nameless_li, grouped_li] else [])
               (\<lambda>sel. None))"
  by (simp add: grouped_page_def)

lemma grouped_page_elements:
  "tagName author_li = ''LI''" "extractMessageId author_li = Some ''5''"
  "hasMessageHeader author_li" "header_user_id author_li = Some ''42''"
  "tagName nameless_li = ''LI''" "hasMessageHeader nameless_li"
  "header_user_id nameless_li = None" "extractMessageId nameless_li = Some ''7''"
  "tagName grouped_li = ''LI''" "extractMessageId grouped_li = Some ''6''"
  "\<not> hasMessageHeader grouped_li"
  by code_simp+

lemma grouped_page_pass:
  "map user_id (fst (fst (extractExistingMessages grouped_page (\<lambda>i. ''t'') fresh_scraper)))
     = [Some ''42'', None, Some ''42'']"
  "map message_id (fst (fst (extractExistingMessages grouped_page (\<lambda>i. ''t'') fresh_scraper)))
     = [''5'', ''7'', ''6'']"
  by code_simp+

theorem grouped_message_inheritance_witness:
  "hasMessageHeader author_li \<and> header_user_id author_li = Some ''42''
   \<and> hasMessageHeader nameless_li \<and> header_user_id nameless_li = None
   \<and> \<not> hasMessageHeader grouped_li
   \<and> (\<exists>ms1 ma msm mb ms2.
        fst (fst (extractExistingMessages grouped_page (\<lambda>i. ''t'') fresh_scraper))
          = ms1 @ ma # msm @ mb # ms2
      \<and> message_id ma = ''5'' \<and> user_id ma = Some ''42''
      \<and> map message_id msm = [''7''] \<and> (\<forall>m \<in> set msm. user_id m = None)
      \<and> message_id mb = ''6'' \<and> user_id mb = Some ''42'')
   \<and> map user_id (fst (fst (extractExistingMessages grouped_page (\<lambda>i. ''t'') fresh_scraper)))
       = [Some ''42'', None, Some ''42'']"
proof -
  have l: "querySelectorAll (Element 20 ''OL'' (\<lambda>a. None) [] [] [] [] None (\<lambda>sel. None)
               (\<lambda>sel. if sel = Li_chat_messages then [author_li, nameless_li, grouped_li] else [])
               (\<lambda>sel. None)) Li_chat_messages = [] @ author_li # [nameless_li] @ grouped_li # []"
    by simp
  have m: "\<forall>h \<in> set [nameless_li]. tagName h = ''LI'' \<and> hasMessageHeader h \<and> header_user_id h = None"
    "map extractMessageId [nameless_li] = map Some [''7'']"
    using grouped_page_elements by simp_all
  have f: "distinct (''5'' # [''7''] @ [''6''])"
    "set (''5'' # [''7''] @ [''6'']) \<inter> processedMessageIds fresh_scraper = {}"
    "\<forall>i \<in> set (''5'' # [''7''] @ [''6'']). Some i \<notin> extractMessageId ` set []"
    by (simp_all add: fresh_scraper_def)
  have u: "''42'' \<noteq> []" by simp
  from grouped_message_inheritance[OF grouped_page_list l grouped_page_elements(1,2,3,4) u m
      grouped_page_elements(9,10,11) f, of "\<lambda>i. ''t''"]
    grouped_page_elements grouped_page_pass(1)
  show ?thesis by simp
qed



section \<open>Reaction filtering\<close>

lemma set_map_filter: "set (List.map_filter f xs) = {y. \<exists>x \<in> set xs. f x = Some y}"
  by (induction xs) (auto simp: List.map_filter_simps split: option.splits)

lemma reaction_of_eq:
  "attr img ''data-name'' = Some name \<Longrightarrow>
     reaction_of c img =
       (if reaction_count (reaction_element c img) = 0 then None
        else Some \<lparr>emoji = name, count = reaction_count (reaction_element c img)\<rparr>)"
  by (simp add: reaction_of_def Let_def)

lemma reaction_of_nameless: "attr img ''data-name'' = None \<Longrightarrow> reaction_of c img = None"
  by (simp add: reaction_of_def)

text \<open>
  The reactions of a message are, in page order, the emoji markers of the reactions
  container that have a name and whose count is not 0 (the test is
  \<^verbatim>\<open>count === 0\<close>); each is recorded with its name and that count.
\<close>

lemma extractReactions_nonzero:
  assumes "or_else (querySelector e Group_class_reactions)
             (or_else (querySelector e Id_message_reactions)
                (querySelector e Class_reactions)) = Some c"
  shows "extractReactions e = List.map_filter (reaction_of c) (querySelectorAll c Img_emoji)
       \<and> (\<forall>img name. attr img ''data-name'' = Some name \<longrightarrow>
             reaction_of c img =
               (if reaction_count (reaction_element c img) = 0 then None
                else Some \<lparr>emoji = name, count = reaction_count (reaction_element c img)\<rparr>))
       \<and> (\<forall>r. r \<in> set (extractReactions e) \<longleftrightarrow>
             (\<exists>img \<in> set (querySelectorAll c Img_emoji). \<exists>name.
                 attr img ''data-name'' = Some name
               \<and> reaction_count (reaction_element c img) \<noteq> 0
               \<and> r = \<lparr>emoji = name, count = reaction_count (reaction_element c img)\<rparr>))"
proof -
  have eq: "extractReactions e = List.map_filter (reaction_of c) (querySelectorAll c Img_emoji)"
    using assms by (simp add: extractReactions_def)
  have mem: "r \<in> set (extractReactions e) \<longleftrightarrow>
             (\<exists>img \<in> set (querySelectorAll c Img_emoji). \<exists>name.
                 attr img ''data-name'' = Some name
               \<and> reaction_count (reaction_element c img) \<noteq> 0
               \<and> r = \<lparr>emoji = name, count = reaction_count (reaction_element c img)\<rparr>)" for r
  proof
    assume "r \<in> set (extractReactions e)"
    then obtain img where i: "img \<in> set (querySelectorAll c Img_emoji)" "reaction_of c img = Some r"
      unfolding eq set_map_filter by blast
    then obtain name where n: "attr img ''data-name'' = Some name"
      using reaction_of_nameless[of img c] by (cases "attr img ''data-name''") auto
    from reaction_of_eq[OF n, of c] i(2)
    have "reaction_count (reaction_element c img) \<noteq> 0
          \<and> r = \<lparr>emoji = name, count = reaction_count (reaction_element c img)\<rparr>"
      by (auto split: if_splits)
    with i(1) n show "\<exists>img \<in> set (querySelectorAll c Img_emoji). \<exists>name.
                 attr img ''data-name'' = Some name
               \<and> reaction_count (reaction_element c img) \<noteq> 0
               \<and> r = \<lparr>emoji = name, count = reaction_count (reaction_element c img)\<rparr>"
      by blast
  next
    assume "\<exists>img \<in> set (querySelectorAll c Img_emoji). \<exists>name.
                 attr img ''data-name'' = Some name
               \<and> reaction_count (reaction_element c img) \<noteq> 0
               \<and> r = \<lparr>emoji = name, count = reaction_count (reaction_element c img)\<rparr>"
    then obtain img name where i: "img \<in> set (querySelectorAll c Img_emoji)"
      and n: "attr img ''data-name'' = Some name"
      and c: "reaction_count (reaction_element c img) \<noteq> 0"
      and r: "r = \<lparr>emoji = name, count = reaction_count (reaction_element c img)\<rparr>"
      by blast
    from reaction_of_eq[OF n, of c] c r have "reaction_of c img = Some r" by simp
    with i show "r \<in> set (extractReactions e)"
      unfolding eq set_map_filter by blast
  qed
  from eq mem reaction_of_eq show ?thesis by blast
qed

text \<open>
  The count read is not negative whenever the text of the count element has no minus
  sign: \<^verbatim>\<open>parseInt\<close> gives a negative number only for a text that starts with one.
\<close>

lemma digit_value_nonneg: "digit_value c = Some v \<Longrightarrow> 0 \<le> v"
  by (auto simp: digit_value_def split: if_splits)

lemma foldl_digits_nonneg:
  "0 \<le> radix \<Longrightarrow> 0 \<le> acc \<Longrightarrow> \<forall>c \<in> set ds. is_radix_digit radix c \<Longrightarrow>
     0 \<le> foldl (\<lambda>acc c. acc * radix + the (digit_value c)) acc ds"
proof (induction ds arbitrary: acc)
  case Nil
  then show ?case by simp
next
  case (Cons c cs)
  from Cons.prems(3) obtain v where v: "digit_value c = Some v"
    by (auto simp: is_radix_digit_def split: option.splits)
  with digit_value_nonneg have "0 \<le> acc * radix + the (digit_value c)"
    using Cons.prems(1,2) by simp
  from Cons.IH[OF Cons.prems(1) this] Cons.prems(3) show ?case by simp
qed

lemma parse_digits_nonneg: "0 \<le> radix \<Longrightarrow> parse_digits radix s = Some n \<Longrightarrow> 0 \<le> n"
  using foldl_digits_nonneg[of radix 0 "takeWhile (is_radix_digit radix) s"]
  by (auto simp: parse_digits_def Let_def split: if_splits dest: set_takeWhileD)

lemma parse_unsigned_nonneg: "parse_unsigned s = Some n \<Longrightarrow> 0 \<le> n"
  using parse_digits_nonneg[of 16 "drop 2 s" n] parse_digits_nonneg[of 10 s n]
  by (simp add: parse_unsigned_def split: if_splits)

lemma parseInt_nonneg:
  "\<not> starts_with (dropWhile is_space s) ''-'' \<Longrightarrow> parseInt s = Some n \<Longrightarrow> 0 \<le> n"
  using parse_unsigned_nonneg
  by (auto simp: parseInt_def Let_def split: if_splits)

lemma reaction_count_nonneg:
  assumes "\<And>r countEl. reactionEl = Some r \<Longrightarrow> querySelector r Class_reactionCount = Some countEl
             \<Longrightarrow> \<not> starts_with (dropWhile is_space (trim (textContent countEl))) ''-''"
  shows "0 \<le> reaction_count reactionEl"
  using assms parseInt_nonneg
  by (auto simp: reaction_count_def split: option.splits)

text \<open>
  C9. The count of a marker is the integer \<^verbatim>\<open>parseInt\<close> reads from its count
  element (0 when it reads none, or when the marker has no reaction or count element). On
  a message whose markers have counts that are not negative, as a counter shows them, the
  reactions are, in page order, the named markers whose count is greater than 0, each with
  its name and its count: a named marker with count 0 gives no reaction, and one with
  count 1 gives \<^verbatim>\<open>{emoji, count: 1}\<close>.
\<close>

theorem extractReactions_positive:
  assumes "or_else (querySelector e Group_class_reactions)
             (or_else (querySelector e Id_message_reactions)
                (querySelector e Class_reactions)) = Some c"
    and "\<forall>img \<in> set (querySelectorAll c Img_emoji).
           0 \<le> reaction_count (reaction_element c img)"
  shows "extractReactions e = List.map_filter (reaction_of c) (querySelectorAll c Img_emoji)
       \<and> (\<forall>img \<in> set (querySelectorAll c Img_emoji). \<forall>name.
             attr img ''data-name'' = Some name \<longrightarrow>
             reaction_of c img =
               (if 0 < reaction_count (reaction_element c img)
                then Some \<lparr>emoji = name, count = reaction_count (reaction_element c img)\<rparr>
                else None))
       \<and> (\<forall>r. r \<in> set (extractReactions e) \<longleftrightarrow>
             (\<exists>img \<in> set (querySelectorAll c Img_emoji). \<exists>name.
                 attr img ''data-name'' = Some name
               \<and> 0 < reaction_count (reaction_element c img)
               \<and> r = \<lparr>emoji = name, count = reaction_count (reaction_element c img)\<rparr>))"
proof -
  have pos: "reaction_count (reaction_element c img) \<noteq> 0
             \<longleftrightarrow> 0 < reaction_count (reaction_element c img)"
    if "img \<in> set (querySelectorAll c Img_emoji)" for img
    using assms(2) that by force
  have eq: "extractReactions e = List.map_filter (reaction_of c) (querySelectorAll c Img_emoji)"
    using extractReactions_nonzero[OF assms(1)] by blast
  have one: "reaction_of c img =
               (if 0 < reaction_count (reaction_element c img)
                then Some \<lparr>emoji = name, count = reaction_count (reaction_element c img)\<rparr>
                else None)"
    if "img \<in> set (querySelectorAll c Img_emoji)" "attr img ''data-name'' = Some name"
    for img name
    using reaction_of_eq[OF that(2), of c] pos[OF that(1)] by simp
  have mem: "r \<in> set (extractReactions e) \<longleftrightarrow>
             (\<exists>img \<in> set (querySelectorAll c Img_emoji). \<exists>name.
                 attr img ''data-name'' = Some name
               \<and> 0 < reaction_count (reaction_element c img)
               \<and> r = \<lparr>emoji = name, count = reaction_count (reaction_element c img)\<rparr>)" for r
  proof -
    have "r \<in> set (extractReactions e) \<longleftrightarrow>
             (\<exists>img \<in> set (querySelectorAll c Img_emoji). \<exists>name.
                 attr img ''data-name'' = Some name
               \<and> reaction_count (reaction_element c img) \<noteq> 0
               \<and> r = \<lparr>emoji = name, count = reaction_count (reaction_element c img)\<rparr>)"
      using extractReactions_nonzero[OF assms(1)] by blast
    also have "\<dots> \<longleftrightarrow> (\<exists>img \<in> set (querySelectorAll c Img_emoji). \<exists>name.
                 attr img ''data-name'' = Some name
               \<and> 0 < reaction_count (reaction_element c img)
               \<and> r = \<lparr>emoji = name, count = reaction_count (reaction_element c img)\<rparr>)"
      using pos by blast
    finally show ?thesis .
  qed
  from eq one mem show ?thesis by blast
qed

theorem extractReactions_positive_witness:
  "or_else (querySelector (reacted_li [emoji_img ''tada'' ''0'', emoji_img ''heart'' ''1'']) Group_class_reactions)
     (or_else (querySelector (reacted_li [emoji_img ''tada'' ''0'', emoji_img ''heart'' ''1'']) Id_message_reactions)
        (querySelector (reacted_li [emoji_img ''tada'' ''0'', emoji_img ''heart'' ''1'']) Class_reactions))
   = Some (reactions_div [emoji_img ''tada'' ''0'', emoji_img ''heart'' ''1''])
   \<and> reaction_count (reaction_element (reactions_div [emoji_img ''tada'' ''0'', emoji_img ''heart'' ''1''])
                       (emoji_img ''tada'' ''0'')) = 0
   \<and> reaction_count (reaction_element (reactions_div [emoji_img ''tada'' ''0'', emoji_img ''heart'' ''1''])
                       (emoji_img ''heart'' ''1'')) = 1
   \<and> reaction_of (reactions_div [emoji_img ''tada'' ''0'', emoji_img ''heart'' ''1''])
        (emoji_img ''tada'' ''0'') = None
   \<and> reaction_of (reactions_div [emoji_img ''tada'' ''0'', emoji_img ''heart'' ''1''])
        (emoji_img ''heart'' ''1'') = Some \<lparr>emoji = ''heart'', count = 1\<rparr>
   \<and> extractReactions (reacted_li [emoji_img ''tada'' ''0'', emoji_img ''heart'' ''1''])
     = [\<lparr>emoji = ''heart'', count = 1\<rparr>]"
proof -
  let ?imgs = "[emoji_img ''tada'' ''0'', emoji_img ''heart'' ''1'']"
  have c: "or_else (querySelector (reacted_li ?imgs) Group_class_reactions)
     (or_else (querySelector (reacted_li ?imgs) Id_message_reactions)
        (querySelector (reacted_li ?imgs) Class_reactions)) = Some (reactions_div ?imgs)"
    by (simp add: reacted_li_def plain_element_def or_else_def)
  have q: "querySelectorAll (reactions_div ?imgs) Img_emoji = ?imgs"
    by (simp add: reactions_div_def)
  have n: "reaction_count (reaction_element (reactions_div ?imgs) (emoji_img ''tada'' ''0'')) = 0"
    "reaction_count (reaction_element (reactions_div ?imgs) (emoji_img ''heart'' ''1'')) = 1"
    by code_simp+
  have a: "attr (emoji_img ''tada'' ''0'') ''data-name'' = Some ''tada''"
    "attr (emoji_img ''heart'' ''1'') ''data-name'' = Some ''heart''"
    by code_simp+
  have h: "\<forall>img \<in> set (querySelectorAll (reactions_div ?imgs) Img_emoji).
             0 \<le> reaction_count (reaction_element (reactions_div ?imgs) img)"
    unfolding q using n by simp
  note inst = extractReactions_positive[OF c h]
  from inst have l: "extractReactions (reacted_li ?imgs)
      = List.map_filter (reaction_of (reactions_div ?imgs)) ?imgs"
    unfolding q by blast
  from inst a n have r: "reaction_of (reactions_div ?imgs) (emoji_img ''tada'' ''0'') = None"
    "reaction_of (reactions_div ?imgs) (emoji_img ''heart'' ''1'')
       = Some \<lparr>emoji = ''heart'', count = 1\<rparr>"
    unfolding q by simp_all
  from l r have "extractReactions (reacted_li ?imgs) = [\<lparr>emoji = ''heart'', count = 1\<rparr>]"
    by (simp add: List.map_filter_simps)
  with c n r show ?thesis by simp
qed



section \<open>The scroll loop's termination policy\<close>

lemma stopCrawling_stops: "\<not> sc_isCrawling (stopCrawling s)"
  by (simp add: stopCrawling_def stopAutoScrolling_def)

lemma stopCrawling_counter: "noNewMessagesCount (stopCrawling s) = noNewMessagesCount s"
  by (simp add: stopCrawling_def stopAutoScrolling_def)

lemma stopCrawling_ids: "processedMessageIds (stopCrawling s) = processedMessageIds s"
  by (simp add: stopCrawling_def stopAutoScrolling_def)

lemma scrolled_iff: "snd (scrollUp c) \<longleftrightarrow> c \<noteq> None"
  by (cases c) (simp_all add: scrollUp_def)

lemma performScrollCycle_crawling:
  assumes "sc_isCrawling s"
  shows "noNewMessagesCount (snd (performScrollCycle c s))
           = (if c = None then noNewMessagesCount s + 1 else noNewMessagesCount s)"
    and "sc_isCrawling (snd (performScrollCycle c s))
           \<longleftrightarrow> \<not> (c = None \<and> NO_NEW_MESSAGES_THRESHOLD \<le> noNewMessagesCount s + 1)"
    and "snd (fst (performScrollCycle c s))
           = (if c = None \<and> NO_NEW_MESSAGES_THRESHOLD \<le> noNewMessagesCount s + 1 then None
              else Some (size_of (processedMessageIds s)))"
    and "processedMessageIds (snd (performScrollCycle c s)) = processedMessageIds s"
  using assms
  by (auto simp: performScrollCycle_def Let_def scrolled_iff stopCrawling_stops
      stopCrawling_counter stopCrawling_ids)

lemma settle_crawling:
  assumes "sc_isCrawling s"
  shows "noNewMessagesCount (settle before c s)
           = (if size_of (processedMessageIds s) = before then noNewMessagesCount s + 1 else 0)"
    and "sc_isCrawling (settle before c s)
           \<longleftrightarrow> \<not> (size_of (processedMessageIds s) = before
                  \<and> NO_NEW_MESSAGES_THRESHOLD \<le> noNewMessagesCount s + 1 \<and> isAtTop c)"
    and "processedMessageIds (settle before c s) = processedMessageIds s"
  using assms
  by (auto simp: settle_def Let_def stopCrawling_stops stopCrawling_counter stopCrawling_ids)

lemma scroll_cycle_some:
  assumes "sc_isCrawling s"
  shows "noNewMessagesCount (scroll_cycle (Some k) a s) = noNewMessagesCount s + 1"
    and "sc_isCrawling (scroll_cycle (Some k) a s)
           \<longleftrightarrow> \<not> (NO_NEW_MESSAGES_THRESHOLD \<le> noNewMessagesCount s + 1 \<and> isAtTop a)"
  using assms
  by (auto simp: scroll_cycle_def performScrollCycle_def scrolled_iff Let_def settle_def
      stopCrawling_stops stopCrawling_counter)

text \<open>
  C2, as the code has it. While the crawl runs, the counter of steps without growth goes up
  by one in a scroll step that finds no scroll container, and by one in the settle callback
  when no message was added since the scroll step; the settle callback sets it to 0 when
  messages were added. The crawl stops in the scroll step when there is no scroll container
  and the counter has reached 3, with no test of the position, and in the settle callback
  when nothing was added, the counter has reached 3 and the container is found at most 10
  pixels from the top. So three cycles in a row without growth stop the crawl when the
  third finds the viewport at the top.
\<close>

theorem scroll_termination_policy:
  assumes "sc_isCrawling s"
  shows "noNewMessagesCount (snd (performScrollCycle c s))
           = (if c = None then noNewMessagesCount s + 1 else noNewMessagesCount s)
       \<and> (sc_isCrawling (snd (performScrollCycle c s))
            \<longleftrightarrow> \<not> (c = None \<and> 3 \<le> noNewMessagesCount s + 1))
       \<and> noNewMessagesCount (settle before c s)
           = (if size_of (processedMessageIds s) = before then noNewMessagesCount s + 1 else 0)
       \<and> (sc_isCrawling (settle before c s)
            \<longleftrightarrow> \<not> (size_of (processedMessageIds s) = before
                   \<and> 3 \<le> noNewMessagesCount s + 1
                   \<and> (\<exists>k. c = Some k \<and> scrollTop k \<le> 10)))
       \<and> (noNewMessagesCount s = 0 \<and> scrollTop a3 \<le> 10
            \<longrightarrow> \<not> sc_isCrawling
                  (scroll_cycle (Some k3) (Some a3)
                     (scroll_cycle (Some k2) a2 (scroll_cycle (Some k1) a1 s))))"
proof -
  have top: "isAtTop c \<longleftrightarrow> (\<exists>k. c = Some k \<and> scrollTop k \<le> 10)"
    by (cases c) (simp_all add: isAtTop_def)
  have three: "\<not> sc_isCrawling
                  (scroll_cycle (Some k3) (Some a3)
                     (scroll_cycle (Some k2) a2 (scroll_cycle (Some k1) a1 s)))"
    if h: "noNewMessagesCount s = 0 \<and> scrollTop a3 \<le> 10"
  proof -
    let ?s1 = "scroll_cycle (Some k1) a1 s"
    let ?s2 = "scroll_cycle (Some k2) a2 ?s1"
    from scroll_cycle_some[OF assms, of k1 a1] h
    have s1: "sc_isCrawling ?s1" "noNewMessagesCount ?s1 = 1"
      by (simp_all add: NO_NEW_MESSAGES_THRESHOLD_def)
    from scroll_cycle_some[OF s1(1), of k2 a2] s1(2)
    have s2: "sc_isCrawling ?s2" "noNewMessagesCount ?s2 = 2"
      by (simp_all add: NO_NEW_MESSAGES_THRESHOLD_def)
    from scroll_cycle_some(2)[OF s2(1), of k3 "Some a3"] s2(2) h
    show ?thesis by (simp add: NO_NEW_MESSAGES_THRESHOLD_def isAtTop_def)
  qed
  from performScrollCycle_crawling(1,2)[OF assms, of c] settle_crawling(1,2)[OF assms, of before c]
    top three
  show ?thesis by (simp add: NO_NEW_MESSAGES_THRESHOLD_def)
qed

theorem scroll_termination_policy_witness:
  "sc_isCrawling stalled_scraper
   \<and> noNewMessagesCount (settle 0 (Some \<lparr>scrollTop = 4, scrollHeight = 900, clientHeight = 300\<rparr>)
                            stalled_scraper) = 3
   \<and> \<not> sc_isCrawling (settle 0 (Some \<lparr>scrollTop = 4, scrollHeight = 900, clientHeight = 300\<rparr>)
                         stalled_scraper)
   \<and> sc_isCrawling (settle 0 (Some \<lparr>scrollTop = 40, scrollHeight = 900, clientHeight = 300\<rparr>)
                       stalled_scraper)
   \<and> sc_isCrawling (snd (performScrollCycle
                            (Some \<lparr>scrollTop = 4, scrollHeight = 900, clientHeight = 300\<rparr>)
                            stalled_scraper))"
proof -
  have c: "sc_isCrawling stalled_scraper" "noNewMessagesCount stalled_scraper = 2"
    "size_of (processedMessageIds stalled_scraper) = 0"
    by (simp_all add: stalled_scraper_def fresh_scraper_def size_of_def)
  from scroll_termination_policy[OF c(1), of "Some \<lparr>scrollTop = 4, scrollHeight = 900, clientHeight = 300\<rparr>" 0]
       scroll_termination_policy[OF c(1), of "Some \<lparr>scrollTop = 40, scrollHeight = 900, clientHeight = 300\<rparr>" 0]
       c
  show ?thesis by simp
qed

text \<open>
  Without a scroll container the crawl stops as soon as the counter reaches 3, although the
  test \<^verbatim>\<open>container && container.scrollTop <= 10\<close> does not hold.
\<close>

theorem stop_without_position_counterexample:
  "sc_isCrawling stalled_scraper
   \<and> noNewMessagesCount (snd (performScrollCycle None stalled_scraper)) = 3
   \<and> \<not> sc_isCrawling (snd (performScrollCycle None stalled_scraper))
   \<and> \<not> isAtTop None"
  by (simp add: stalled_scraper_def fresh_scraper_def performScrollCycle_def scrollUp_def Let_def
      NO_NEW_MESSAGES_THRESHOLD_def stopCrawling_def stopAutoScrolling_def isAtTop_def)



section \<open>When \<open>last_crawled_at\<close> is written\<close>

lemma storeServer_channels: "channels (snd (storeServer server d)) = channels d"
  by (simp add: storeServer_def split: sum.splits)

lemma storeUsers_channels: "channels (snd (storeUsers us d)) = channels d"
  by (simp add: storeUsers_def)

lemma storeMessages_channels: "channels (snd (storeMessages ms d)) = channels d"
  by (simp add: storeMessages_def)

lemma storeServer_ok:
  "\<not> truthy (field server ''server_id'') \<or> valid_key (field server ''server_id'') \<Longrightarrow>
     fst (storeServer server d) = None"
  by (auto simp: storeServer_def storeData_def put_def Let_def)

lemma set_field_same: "truthy (field c k') \<Longrightarrow> field (set_field c k v) k = v"
  by (cases c) (simp_all add: update_conv')

lemma set_field_other: "k \<noteq> k' \<Longrightarrow> field (set_field c k v) k' = field c k'"
  by (cases c) (simp_all add: update_conv')

lemma save_all_channel:
  assumes flag: "truthy (field request ''updateLastCrawled'')"
    and ch: "field (field request ''channel'') ''channel_id'' = cid" "truthy cid" "valid_key cid"
    and srv: "\<not> truthy (field (field request ''server'') ''server_id'')
              \<or> valid_key (field (field request ''server'') ''server_id'')"
  shows "\<exists>r. channels (snd (save_all request now d)) cid = Some r
            \<and> field r ''last_crawled_at'' = JStr now"
proof -
  let ?ch = "field request ''channel''"
  have tch: "truthy ?ch" using ch truthy_field_obj[of ?ch "''channel_id''"] by simp
  let ?st = "stamped request now"
  have st: "?st = set_field ?ch ''last_crawled_at'' (JStr now)"
    using flag ch tch by (simp add: stamped_def)
  have id: "field ?st ''channel_id'' = cid"
    unfolding st using ch by (simp add: set_field_other)
  have lca: "field ?st ''last_crawled_at'' = JStr now"
    unfolding st using ch set_field_same[of ?ch "''channel_id''"] by simp
  let ?d1 = "snd (if truthy (field request ''server'') \<and> truthy (field (field request ''server'') ''server_id'')
        then storeServer (field request ''server'') d else (None, d))"
  have s1: "(if truthy (field request ''server'') \<and> truthy (field (field request ''server'') ''server_id'')
        then storeServer (field request ''server'') d else (None, d)) = (None, ?d1)"
    using srv storeServer_ok[of "field request ''server''" d]
    by (auto simp: prod_eq_iff)
  have c1: "channels ?d1 = channels d" by (simp add: storeServer_channels)
  from storeChannel_eq[of ?st ?d1] id ch
  have sc: "storeChannel ?st ?d1 = (None, ?d1\<lparr>channels := (channels ?d1)(cid \<mapsto>
        channelData (case channels ?d1 cid of None \<Rightarrow> JUndef | Some r \<Rightarrow> r) ?st)\<rparr>)"
    by simp
  let ?r = "channelData (case channels ?d1 cid of None \<Rightarrow> JUndef | Some r \<Rightarrow> r) ?st"
  have r: "field ?r ''last_crawled_at'' = JStr now"
    using lca by (simp add: field_props[of "channelData a b" for a b] props_channelData)
  have "channels (snd (save_all request now d)) cid = Some ?r"
    unfolding save_all_def
    apply (subst s1)
    apply (simp add: and_then_def tch ch sc)
    apply (auto simp: storeUsers_channels storeMessages_channels storeUsers_def storeMessages_def
        split: prod.splits option.splits)
    done
  with r show ?thesis by blast
qed

text \<open>
  C1 on the code. \<^verbatim>\<open>startCrawling\<close> sends the batch of messages rendered at the start
  with \<^verbatim>\<open>updateLastCrawled: true\<close>, and the \<^verbatim>\<open>saveToIndexedDB\<close> handler then
  sets \<open>last_crawled_at\<close> of the channel to the time of the request, whatever the crawl
  state is: for every such request with a channel id (and a server id that can be stored),
  handled while the crawl is running, the crawl is still running afterwards and the stored
  channel carries the new time. The stamp is written at the start of a crawl, not at its
  completion or stop.
\<close>

theorem saveToIndexedDB_stamps_running_crawl:
  assumes "truthy (field request ''updateLastCrawled'')"
    and "field (field request ''channel'') ''channel_id'' = cid" "truthy cid" "valid_key cid"
    and "\<not> truthy (field (field request ''server'') ''server_id'')
         \<or> valid_key (field (field request ''server'') ''server_id'')"
    and "isCrawling cs"
  shows "isCrawling (fst (snd (saveToIndexedDB request now (cs, d))))
       \<and> (\<exists>r. channels (snd (snd (saveToIndexedDB request now (cs, d)))) cid = Some r
              \<and> field r ''last_crawled_at'' = JStr now)"
proof -
  from save_all_channel[OF assms(1-5), of now d]
  obtain r where r: "channels (snd (save_all request now d)) cid = Some r"
    "field r ''last_crawled_at'' = JStr now" by blast
  have db: "snd (snd (saveToIndexedDB request now (cs, d))) = snd (save_all request now d)"
    by (simp add: saveToIndexedDB_def Let_def split: prod.splits option.splits)
  have cr: "isCrawling (fst (snd (saveToIndexedDB request now (cs, d)))) = isCrawling cs"
    by (simp add: saveToIndexedDB_def Let_def split: prod.splits option.splits)
  from r db cr assms(6) show ?thesis by simp
qed


text \<open>
  The run from the page: a crawl started on a channel page that shows one message sends
  that request, and the handler stamps channel 222 one second into the crawl.
\<close>

lemma start_example:
  "sc_isCrawling (snd (startCrawling example_page (\<lambda>i. ''2025-12-16T10:00:00.000Z'') None idle_scraper))"
  "last (sent (snd (startCrawling example_page (\<lambda>i. ''2025-12-16T10:00:00.000Z'') None idle_scraper)))
     = first_batch"
  "snd (startCrawl (Inr (Some \<lparr>tab_id = 9, url = Some ''https://discord.com/channels/111/222''\<rparr>))
          None idle_crawl_state)
     = idle_crawl_state\<lparr>isCrawling := True, currentTabId := Some 9\<rparr>"
  by code_simp+

lemma first_batch_fields:
  "truthy (field first_batch ''updateLastCrawled'')"
  "field (field first_batch ''channel'') ''channel_id'' = JStr ''222''"
  "valid_key (field (field first_batch ''server'') ''server_id'')"
  by code_simp+

theorem saveToIndexedDB_stamps_running_crawl_witness:
  "sc_isCrawling (snd (startCrawling example_page (\<lambda>i. ''2025-12-16T10:00:00.000Z'') None idle_scraper))
   \<and> last (sent (snd (startCrawling example_page (\<lambda>i. ''2025-12-16T10:00:00.000Z'') None
                        idle_scraper))) = first_batch
   \<and> isCrawling (idle_crawl_state\<lparr>isCrawling := True, currentTabId := Some 9\<rparr>)
   \<and> isCrawling (fst (snd (saveToIndexedDB first_batch ''2025-12-16T10:00:01.000Z''
                            (idle_crawl_state\<lparr>isCrawling := True, currentTabId := Some 9\<rparr>,
                             empty_db))))
   \<and> (\<exists>r. channels (snd (snd (saveToIndexedDB first_batch ''2025-12-16T10:00:01.000Z''
                                (idle_crawl_state\<lparr>isCrawling := True, currentTabId := Some 9\<rparr>,
                                 empty_db)))) (JStr ''222'') = Some r
          \<and> field r ''last_crawled_at'' = JStr ''2025-12-16T10:00:01.000Z'')"
proof -
  have run: "isCrawling (idle_crawl_state\<lparr>isCrawling := True, currentTabId := Some 9\<rparr>)"
    by simp
  from saveToIndexedDB_stamps_running_crawl
         [of first_batch "JStr ''222''" "idle_crawl_state\<lparr>isCrawling := True, currentTabId := Some 9\<rparr>"
             "''2025-12-16T10:00:01.000Z''" empty_db]
       first_batch_fields run start_example(1,2)
  show ?thesis by simp
qed



text \<open>
  For comparison, the two ways a crawl ends. The \<^verbatim>\<open>stopCrawl\<close> handler stamps the
  current channel, when it is stored, before it resets the crawl state. A crawl that the
  scroll loop ends by itself only reports \<^verbatim>\<open>isCrawling: false\<close>; the
  \<^verbatim>\<open>updateCrawlStatus\<close> handler has no access to the store.
\<close>

lemma stopCrawl_stamps:
  assumes "isCrawling cs" "currentChannel cs = cid" "truthy cid" "valid_key cid"
    and "channels d cid = Some r" "field r ''channel_id'' = cid"
  shows "\<exists>r'. stopCrawl now (cs, d)
               = (ok, resetCrawlState cs, d\<lparr>channels := (channels d)(cid \<mapsto> r')\<rparr>)
            \<and> field r' ''last_crawled_at'' = JStr now"
proof -
  have tr: "truthy r" using assms(3,6) truthy_field_obj[of r "''channel_id''"] by simp
  let ?c = "set_field r ''last_crawled_at'' (JStr now)"
  have id: "field ?c ''channel_id'' = cid"
    using assms(6) by (simp add: set_field_other)
  have lca: "field ?c ''last_crawled_at'' = JStr now"
    using set_field_same[of r "''channel_id''"] assms(3,6) by simp
  have g: "getChannel cid d = Inr r"
    using assms(3,4,5) tr by (simp add: getChannel_def get_def js_or_def)
  let ?r' = "channelData r ?c"
  from storeChannel_eq[of ?c d] id assms(3,4,5)
  have sc: "storeChannel ?c d = (None, d\<lparr>channels := (channels d)(cid \<mapsto> ?r')\<rparr>)"
    by simp
  have "field ?r' ''last_crawled_at'' = JStr now"
    using lca by (simp add: field_props[of "channelData a b" for a b] props_channelData)
  moreover have "stopCrawl now (cs, d)
      = (ok, resetCrawlState cs, d\<lparr>channels := (channels d)(cid \<mapsto> ?r')\<rparr>)"
    using assms(1,2,3) g tr sc by (simp add: stopCrawl_def stamp_on_stop_def)
  ultimately show ?thesis by blast
qed

lemma natural_stop_sends_status_only:
  "sc_isCrawling s \<Longrightarrow>
     sent (stopCrawling s) = sent s @
       [JObj [(''action'', JStr ''updateCrawlStatus''), (''isCrawling'', JBool False)]]"
  by (simp add: stopCrawling_def stopAutoScrolling_def)


section \<open>From the page to the \<open>messages\<close> store\<close>

text \<open>
  \<^verbatim>\<open>storeUsers\<close> and \<^verbatim>\<open>storeMessages\<close> on records with valid keys: no
  \<^verbatim>\<open>put\<close> raises, and under the key of each record that has one, the store holds a
  record of the batch with that key (the last one put).
\<close>

lemma storeAll_ok:
  "\<forall>x \<in> set xs. \<not> truthy (field x k) \<or> valid_key (field x k) \<Longrightarrow>
     fst (storeAll k xs st) = None"
  by (induction xs arbitrary: st) (auto simp: put_def Let_def)

lemma storeAll_step:
  assumes "\<not> truthy (field x k) \<or> valid_key (field x k)"
  shows "storeAll k (x # xs) st = storeAll k xs st
       \<or> (truthy (field x k)
            \<and> storeAll k (x # xs) st = storeAll k xs (st(field x k \<mapsto> x)))"
  using assms by (auto simp: put_def Let_def)

lemma storeAll_frame:
  assumes "\<forall>x \<in> set xs. \<not> truthy (field x k) \<or> valid_key (field x k)"
  shows "snd (storeAll k xs st) key = st key
       \<or> (\<exists>x \<in> set xs. truthy (field x k) \<and> field x k = key
              \<and> snd (storeAll k xs st) key = Some x)"
  using assms
proof (induction xs arbitrary: st)
  case Nil
  then show ?case by simp
next
  case (Cons x xs)
  have rest: "\<forall>y \<in> set xs. \<not> truthy (field y k) \<or> valid_key (field y k)"
    using Cons.prems by simp
  have vx: "\<not> truthy (field x k) \<or> valid_key (field x k)"
    using Cons.prems by simp
  define st1 where "st1 = st(field x k \<mapsto> x)"
  from storeAll_step[OF vx, of xs st]
  consider (skip) "storeAll k (x # xs) st = storeAll k xs st"
    | (put) "truthy (field x k)" "storeAll k (x # xs) st = storeAll k xs st1"
    unfolding st1_def by blast
  then show ?case
  proof cases
    case skip
    from Cons.IH[OF rest, of st] show ?thesis unfolding skip by auto
  next
    case put
    have st1: "st1 (field x k) = Some x" "key \<noteq> field x k \<Longrightarrow> st1 key = st key"
      by (simp_all add: st1_def)
    from Cons.IH[OF rest, of st1]
    consider (same) "snd (storeAll k xs st1) key = st1 key"
      | (later) y where "y \<in> set xs" "truthy (field y k)" "field y k = key"
          "snd (storeAll k xs st1) key = Some y"
      by blast
    then show ?thesis
    proof cases
      case same
      show ?thesis
      proof (cases "key = field x k")
        case True
        with same st1(1) put(1) have "x \<in> set (x # xs) \<and> truthy (field x k) \<and> field x k = key
              \<and> snd (storeAll k (x # xs) st) key = Some x"
          unfolding put(2) by simp
        then show ?thesis by blast
      next
        case False
        with same st1(2) show ?thesis unfolding put(2) by simp
      qed
    next
      case later
      then have "y \<in> set (x # xs) \<and> truthy (field y k) \<and> field y k = key
              \<and> snd (storeAll k (x # xs) st) key = Some y"
        unfolding put(2) by simp
      then show ?thesis by blast
    qed
  qed
qed

lemma storeAll_stored:
  assumes "\<forall>x \<in> set xs. \<not> truthy (field x k) \<or> valid_key (field x k)"
    and "x \<in> set xs" "truthy (field x k)"
  shows "\<exists>y \<in> set xs. field y k = field x k \<and> snd (storeAll k xs st) (field x k) = Some y"
  using assms
proof (induction xs arbitrary: st)
  case Nil
  then show ?case by simp
next
  case (Cons z zs)
  have rest: "\<forall>y \<in> set zs. \<not> truthy (field y k) \<or> valid_key (field y k)"
    using Cons.prems(1) by simp
  have vz: "\<not> truthy (field z k) \<or> valid_key (field z k)"
    using Cons.prems(1) by simp
  define st1 where "st1 = st(field z k \<mapsto> z)"
  show ?case
  proof (cases "x \<in> set zs")
    case True
    from storeAll_step[OF vz, of zs st] obtain st' where
      step: "storeAll k (z # zs) st = storeAll k zs st'" by blast
    from Cons.IH[OF rest True Cons.prems(3), of st']
    obtain y where "y \<in> set zs" "field y k = field x k"
      "snd (storeAll k zs st') (field x k) = Some y" by blast
    then have "y \<in> set (z # zs) \<and> field y k = field x k
       \<and> snd (storeAll k (z # zs) st) (field x k) = Some y"
      unfolding step by simp
    then show ?thesis by blast
  next
    case False
    with Cons.prems(2) have zx: "z = x" by simp
    have tx: "truthy x" using Cons.prems(3) truthy_field_obj by blast
    have v: "valid_key (field x k)" using Cons.prems(1,3) zx by auto
    have step: "storeAll k (z # zs) st = storeAll k zs st1"
      unfolding st1_def using zx tx Cons.prems(3) v by (simp add: put_def Let_def)
    have st1: "st1 (field x k) = Some x" by (simp add: st1_def zx)
    from storeAll_frame[OF rest, of st1 "field x k"]
    consider (same) "snd (storeAll k zs st1) (field x k) = Some x"
      | (later) y where "y \<in> set zs" "field y k = field x k"
          "snd (storeAll k zs st1) (field x k) = Some y"
      unfolding st1 by blast
    then show ?thesis
    proof cases
      case same
      then have "x \<in> set (z # zs) \<and> field x k = field x k
         \<and> snd (storeAll k (z # zs) st) (field x k) = Some x"
        unfolding step using zx by simp
      then show ?thesis by blast
    next
      case later
      then have "y \<in> set (z # zs) \<and> field y k = field x k
         \<and> snd (storeAll k (z # zs) st) (field x k) = Some y"
        unfolding step by simp
      then show ?thesis by blast
    qed
  qed
qed

lemma message_js_key: "field (message_js m) ''message_id'' = JStr (message_id m)"
  by (simp add: message_js_def)

lemma user_js_key: "field (user_js u) ''user_id'' = JStr (u_user_id u)"
  by (simp add: user_js_def)

lemma storeMessages_sent:
  "fst (storeMessages (map message_js ms) d) = None"
  "m \<in> set ms \<Longrightarrow> message_id m \<noteq> [] \<Longrightarrow>
     \<exists>m' \<in> set ms. message_id m' = message_id m
        \<and> messages (snd (storeMessages (map message_js ms) d)) (JStr (message_id m))
            = Some (message_js m')"
proof -
  have v: "\<forall>x \<in> set (map message_js ms).
             \<not> truthy (field x ''message_id'') \<or> valid_key (field x ''message_id'')"
    by (auto simp: message_js_key)
  from storeAll_ok[OF v] show "fst (storeMessages (map message_js ms) d) = None"
    by (simp add: storeMessages_def)
  assume m: "m \<in> set ms" "message_id m \<noteq> []"
  then have "message_js m \<in> set (map message_js ms)"
    "truthy (field (message_js m) ''message_id'')"
    by (simp_all add: message_js_key)
  from storeAll_stored[OF v this, of "messages d"]
  obtain y where y: "y \<in> set (map message_js ms)"
    "field y ''message_id'' = JStr (message_id m)"
    "snd (storeAll ''message_id'' (map message_js ms) (messages d)) (JStr (message_id m)) = Some y"
    unfolding message_js_key by blast
  from y(1) obtain m' where m': "m' \<in> set ms" "y = message_js m'"
    unfolding set_map by blast
  with y(2) have "message_id m' = message_id m" by (simp add: message_js_key)
  with m' y(3) show "\<exists>m' \<in> set ms. message_id m' = message_id m
        \<and> messages (snd (storeMessages (map message_js ms) d)) (JStr (message_id m))
            = Some (message_js m')"
    by (auto simp: storeMessages_def)
qed

lemma storeUsers_sent:
  "fst (storeUsers (map user_js us) d) = None"
  "messages (snd (storeUsers us' d)) = messages d"
proof -
  have v: "\<forall>x \<in> set (map user_js us).
             \<not> truthy (field x ''user_id'') \<or> valid_key (field x ''user_id'')"
    by (auto simp: user_js_key)
  from storeAll_ok[OF v] show "fst (storeUsers (map user_js us) d) = None"
    by (simp add: storeUsers_def)
  show "messages (snd (storeUsers us' d)) = messages d"
    by (simp add: storeUsers_def)
qed

lemma storeServer_messages: "messages (snd (storeServer server d)) = messages d"
  by (simp add: storeServer_def split: sum.splits)

lemma storeChannel_messages: "messages (snd (storeChannel ch d)) = messages d"
  by (simp add: storeChannel_def split: sum.splits)

lemma js_opt_key: "\<not> truthy (js_opt x) \<or> valid_key (js_opt x)"
  by (cases x) (simp_all add: js_opt_def)

lemma storeChannel_ok:
  "\<not> truthy (field ch ''channel_id'') \<or> valid_key (field ch ''channel_id'') \<Longrightarrow>
     fst (storeChannel ch d) = None"
  using storeChannel_eq[of ch d] by (auto simp: storeChannel_def)

lemma save_request_fields:
  "field (save_request c us ms) ''server''
     = JObj [(''server_id'', js_opt (c_server_id c)), (''server_name'', js_opt (c_server_name c))]"
  "field (save_request c us ms) ''channel''
     = JObj [(''channel_id'', js_opt (c_channel_id c)), (''server_id'', js_opt (c_server_id c)),
             (''channel_name'', js_opt (c_channel_name c))]"
  "field (save_request c us ms) ''updateLastCrawled'' = JBool True"
  "items (field (save_request c us ms) ''users'') = map user_js us"
  "items (field (save_request c us ms) ''messages'') = map message_js ms"
  by (simp_all add: save_request_def)

lemma stamped_save_request_id:
  "field (stamped (save_request c us ms) now) ''channel_id'' = js_opt (c_channel_id c)"
  by (simp add: stamped_def save_request_fields update_conv')

lemma and_then_ok: "fst r = None \<Longrightarrow> and_then r f = f (snd r)"
  by (cases r) (simp add: and_then_def)

lemma save_all_save_request:
  "fst (save_all (save_request c us ms) now d) = None"
  "messages (snd (save_all (save_request c us ms) now d))
     = messages (snd (storeMessages (map message_js ms) d))"
proof -
  define req where "req = save_request c us ms"
  define r1 where "r1 = (if truthy (field req ''server'')
                            \<and> truthy (field (field req ''server'') ''server_id'')
                         then storeServer (field req ''server'') d else (None, d))"
  define R2 where "R2 = (\<lambda>d1. if truthy (field req ''channel'')
                                \<and> truthy (field (field req ''channel'') ''channel_id'')
                              then storeChannel (stamped req now) d1 else (None, d1))"
  define R3 where "R3 = (\<lambda>d2. if items (field req ''users'') \<noteq> []
                              then storeUsers (items (field req ''users'')) d2 else (None, d2))"
  define R4 where "R4 = (\<lambda>d3. if items (field req ''messages'') \<noteq> []
                              then storeMessages (items (field req ''messages'')) d3
                              else (None, d3))"
  have sid: "field (field req ''server'') ''server_id'' = js_opt (c_server_id c)"
    by (simp add: req_def save_request_fields)
  have r1: "fst r1 = None" "messages (snd r1) = messages d"
    using storeServer_ok[of "field req ''server''" d] js_opt_key[of "c_server_id c"]
    by (auto simp: r1_def sid storeServer_messages)
  have r2: "fst (R2 d1) = None" "messages (snd (R2 d1)) = messages d1" for d1
    using storeChannel_ok[of "stamped req now" d1] js_opt_key[of "c_channel_id c"]
    by (auto simp: R2_def req_def stamped_save_request_id storeChannel_messages)
  have r3: "fst (R3 d2) = None" "messages (snd (R3 d2)) = messages d2" for d2
    using storeUsers_sent(1)[of us d2] storeUsers_sent(2)[of "map user_js us" d2]
    by (auto simp: R3_def req_def save_request_fields(4))
  have r4: "fst (R4 d3) = None"
    "messages (snd (R4 d3)) = messages (snd (storeMessages (map message_js ms) d3))" for d3
    using storeMessages_sent(1)[of ms d3]
    by (auto simp: R4_def req_def save_request_fields(5) storeMessages_def)
  have "save_all req now d = and_then r1 (\<lambda>d1. and_then (R2 d1) (\<lambda>d2. and_then (R3 d2) R4))"
    unfolding save_all_def r1_def R2_def R3_def R4_def by (rule refl)
  also have "\<dots> = R4 (snd (R3 (snd (R2 (snd r1)))))"
    by (simp add: and_then_ok r1(1) r2(1) r3(1))
  finally have eq: "save_all req now d = R4 (snd (R3 (snd (R2 (snd r1)))))" .
  show "fst (save_all (save_request c us ms) now d) = None"
    using eq r4(1) by (simp add: req_def)
  have "messages (snd (save_all req now d))
          = snd (storeAll ''message_id'' (map message_js ms) (messages d))"
    unfolding eq r4(2) by (simp add: storeMessages_def r3(2) r2(2) r1(2))
  then show "messages (snd (save_all (save_request c us ms) now d))
     = messages (snd (storeMessages (map message_js ms) d))"
    by (simp add: req_def storeMessages_def)
qed

lemma saveToIndexedDB_db:
  "snd (snd (saveToIndexedDB request now (cs, d))) = snd (save_all request now d)"
  by (simp add: saveToIndexedDB_def Let_def split: prod.splits option.splits)

lemma saveToIndexedDB_ok:
  "fst (save_all request now d) = None \<Longrightarrow> fst (saveToIndexedDB request now (cs, d)) = ok"
  by (cases "save_all request now d") (simp add: saveToIndexedDB_def Let_def)

lemma save_request_stores:
  assumes "m \<in> set ms" "message_id m \<noteq> []"
  shows "fst (saveToIndexedDB (save_request c us ms) now (cs, d)) = ok
       \<and> (\<exists>m' \<in> set ms. message_id m' = message_id m
            \<and> messages (snd (snd (saveToIndexedDB (save_request c us ms) now (cs, d))))
                 (JStr (message_id m)) = Some (message_js m'))"
  using storeMessages_sent(2)[OF assms, of d] save_all_save_request[of c us ms now d]
    saveToIndexedDB_ok[of "save_request c us ms" now d cs]
  by (simp add: saveToIndexedDB_db)

lemma updateContext_processed:
  "processedMessageIds (updateContext pg s) = processedMessageIds s"
  by (simp add: updateContext_def Let_def)

lemma extractExistingMessages_found:
  assumes "querySelector (document pg) Ol_chat_messages = Some chatList"
    and "querySelectorAll chatList Li_chat_messages = pre @ e # post"
    and "tagName e = ''LI''" "extractMessageId e = Some mid"
    and "mid \<notin> processedMessageIds s" "Some mid \<notin> extractMessageId ` set pre"
  shows "\<exists>m \<in> set (fst (fst (extractExistingMessages pg clock s))). message_id m = mid"
proof -
  let ?es = "querySelectorAll chatList Li_chat_messages"
  have "map fst (zip ?es [0 ..< length ?es]) = pre @ e # post"
    using assms(2) map_fst_zip_upt[of ?es] by simp
  from pass_extracts[OF this assms(3-6),
      of clock "\<lparr>lastSeenAuthorId = None, found_messages = [], found_users = []\<rparr>"]
  show ?thesis unfolding extractExistingMessages_pass[OF assms(1)] by auto
qed

lemma startCrawling_sends:
  assumes "\<not> sc_isCrawling s"
    and "fst (fst (extractExistingMessages pg clock
           (updateContext pg (s\<lparr>sc_isCrawling := True, processedMessageIds := {}\<rparr>)))) = ms"
    and "ms \<noteq> []"
  shows "\<exists>c' us. sent (snd (startCrawling pg clock c s)) \<noteq> []
           \<and> last (sent (snd (startCrawling pg clock c s))) = save_request c' us ms"
  using assms by (simp add: startCrawling_def Let_def) blast

text \<open>
  C10. A list item whose id is not empty and does not have the form
  \<^verbatim>\<open>chat-messages-{channel_id}-{message_id}\<close> is not turned away for that: its message
  id is the id attribute as it stands. When a crawl is started on a page that shows such an
  item (the first of the list with that id), the batch \<^verbatim>\<open>startCrawling\<close> sends is a
  \<^verbatim>\<open>saveToIndexedDB\<close> request, and the handler, whatever the database and the crawl
  state were, answers with success and leaves in the \<open>messages\<close> store, under the raw
  id as key, a record whose \<open>message_id\<close> is the raw id. So a message id in the store
  need not be a number of the host platform.
\<close>

theorem raw_id_is_stored_message_id:
  assumes "\<not> sc_isCrawling s"
    and "querySelector (document pg) Ol_chat_messages = Some chatList"
    and "querySelectorAll chatList Li_chat_messages = pre @ e # post"
    and "tagName e = ''LI''"
    and "getAttribute e ''id'' = Some i" and "i \<noteq> []"
    and "match_chat_message i = None"
    and "Some i \<notin> extractMessageId ` set pre"
  shows "extractMessageId e = Some i
       \<and> sent (snd (startCrawling pg clock c s)) \<noteq> []
       \<and> field (last (sent (snd (startCrawling pg clock c s)))) ''action''
           = JStr ''saveToIndexedDB''
       \<and> fst (saveToIndexedDB (last (sent (snd (startCrawling pg clock c s)))) now (cs, d)) = ok
       \<and> (\<exists>r. messages (snd (snd (saveToIndexedDB
                    (last (sent (snd (startCrawling pg clock c s)))) now (cs, d)))) (JStr i)
                = Some r
              \<and> field r ''message_id'' = JStr i)"
proof -
  have id: "extractMessageId e = Some i"
    using assms(5,6,7) by (simp add: extractMessageId_def)
  let ?s1 = "updateContext pg (s\<lparr>sc_isCrawling := True, processedMessageIds := {}\<rparr>)"
  let ?ms = "fst (fst (extractExistingMessages pg clock ?s1))"
  have fresh: "i \<notin> processedMessageIds ?s1"
    by (simp add: updateContext_processed)
  from extractExistingMessages_found[OF assms(2,3,4) id fresh assms(8), of clock]
  obtain m where m: "m \<in> set ?ms" "message_id m = i" by blast
  then have ne: "?ms \<noteq> []" by auto
  from startCrawling_sends[OF assms(1) refl ne, of c]
  obtain c' us where snt: "sent (snd (startCrawling pg clock c s)) \<noteq> []"
    "last (sent (snd (startCrawling pg clock c s))) = save_request c' us ?ms" by blast
  from save_request_stores[OF m(1), of c' us now cs d] m(2) assms(6)
  obtain m' where st: "fst (saveToIndexedDB (save_request c' us ?ms) now (cs, d)) = ok"
    "message_id m' = i"
    "messages (snd (snd (saveToIndexedDB (save_request c' us ?ms) now (cs, d)))) (JStr i)
       = Some (message_js m')"
    by auto
  have act: "field (save_request c' us ?ms) ''action'' = JStr ''saveToIndexedDB''"
    by (simp add: save_request_def)
  from st(2) have "field (message_js m') ''message_id'' = JStr i"
    by (simp add: message_js_key)
  with id snt st(1,3) act show ?thesis by simp
qed

lemma raw_id_page_list:
  "querySelector (document raw_id_page) Ol_chat_messages
     = Some (Element 20 ''OL'' (\<lambda>a. None) [] [] [] [] None (\<lambda>sel. None)
               (\<lambda>sel. if sel = Li_chat_messages
                      then [plain_element 1 ''LI'' (Some ''chat-messages-general-12'') (\<lambda>sel. None)]
                      else [])
               (\<lambda>sel. None))"
  by (simp add: raw_id_page_def)

lemma raw_id_example:
  "match_chat_message ''chat-messages-general-12'' = None"
  "\<not> (\<forall>c \<in> set ''chat-messages-general-12''. is_digit c)"
  "messages (snd (snd (saveToIndexedDB
       (last (sent (snd (startCrawling raw_id_page (\<lambda>i. ''2025-12-16T10:00:00.000Z'') None
                          idle_scraper))))
       ''2025-12-16T10:00:01.000Z'' (idle_crawl_state, empty_db))))
     (JStr ''chat-messages-general-12'')
   = Some (JObj [(''message_id'', JStr ''chat-messages-general-12''),
                 (''channel_id'', JStr ''222''), (''user_id'', JNull),
                 (''timestamp'', JStr ''2025-12-16T10:00:00.000Z''), (''content'', JStr []),
                 (''has_attachments'', JBool False), (''reactions'', JArr [])])"
  by code_simp+

theorem raw_id_is_stored_message_id_witness:
  "\<not> sc_isCrawling idle_scraper
   \<and> match_chat_message ''chat-messages-general-12'' = None
   \<and> \<not> (\<forall>c \<in> set ''chat-messages-general-12''. is_digit c)
   \<and> extractMessageId (plain_element 1 ''LI'' (Some ''chat-messages-general-12'') (\<lambda>sel. None))
       = Some ''chat-messages-general-12''
   \<and> fst (saveToIndexedDB
            (last (sent (snd (startCrawling raw_id_page (\<lambda>i. ''2025-12-16T10:00:00.000Z'') None
                               idle_scraper))))
            ''2025-12-16T10:00:01.000Z'' (idle_crawl_state, empty_db)) = ok
   \<and> (\<exists>r. messages (snd (snd (saveToIndexedDB
              (last (sent (snd (startCrawling raw_id_page (\<lambda>i. ''2025-12-16T10:00:00.000Z'') None
                                 idle_scraper))))
              ''2025-12-16T10:00:01.000Z'' (idle_crawl_state, empty_db))))
            (JStr ''chat-messages-general-12'') = Some r
          \<and> field r ''message_id'' = JStr ''chat-messages-general-12'')
   \<and> messages (snd (snd (saveToIndexedDB
         (last (sent (snd (startCrawling raw_id_page (\<lambda>i. ''2025-12-16T10:00:00.000Z'') None
                            idle_scraper))))
         ''2025-12-16T10:00:01.000Z'' (idle_crawl_state, empty_db))))
       (JStr ''chat-messages-general-12'')
     = Some (JObj [(''message_id'', JStr ''chat-messages-general-12''),
                   (''channel_id'', JStr ''222''), (''user_id'', JNull),
                   (''timestamp'', JStr ''2025-12-16T10:00:00.000Z''), (''content'', JStr []),
                   (''has_attachments'', JBool False), (''reactions'', JArr [])])"
proof -
  let ?e = "plain_element 1 ''LI'' (Some ''chat-messages-general-12'') (\<lambda>sel. None)"
  have l: "querySelectorAll (Element 20 ''OL'' (\<lambda>a. None) [] [] [] [] None (\<lambda>sel. None)
               (\<lambda>sel. if sel = Li_chat_messages then [?e] else [])
               (\<lambda>sel. None)) Li_chat_messages = [] @ ?e # []"
    by simp
  have e: "tagName ?e = ''LI''" "getAttribute ?e ''id'' = Some ''chat-messages-general-12''"
    "''chat-messages-general-12'' \<noteq> []"
    "Some ''chat-messages-general-12'' \<notin> extractMessageId ` set []"
    by (simp_all add: plain_element_def)
  have idle: "\<not> sc_isCrawling idle_scraper" by (simp add: idle_scraper_def)
  from raw_id_is_stored_message_id[OF idle raw_id_page_list l e(1,2,3) raw_id_example(1) e(4),
      of "\<lambda>i. ''2025-12-16T10:00:00.000Z''" None "''2025-12-16T10:00:01.000Z''"
         idle_crawl_state empty_db]
    idle raw_id_example
  show ?thesis by simp
qed



section \<open>The export: what is skipped and when it fails\<close>

lemma insert_message_skipped: "skipped m msg \<Longrightarrow> insert_message m st msg = st"
  by (auto simp: skipped_def insert_message_def message_row_of_def split: option.splits)

lemma insert_message_cases:
  "insert_message m st msg = st
   \<or> (\<not> skipped m msg \<and> (\<exists>row. insert_message m st msg = (fst st @ [row], snd st + 1)
        \<and> mr_message_id row = text_affinity (the (bind (field msg ''message_id'')))
        \<and> Some (mr_channel_id row) = map_get m (field msg ''channel_id'')))"
  by (auto simp: skipped_def insert_message_def message_row_of_def split: option.splits)

lemma insert_message_first:
  "\<not> skipped m msg \<Longrightarrow> \<exists>row. insert_message m ([], n) msg = ([row], n + 1)"
  by (auto simp: skipped_def insert_message_def message_row_of_def split: option.splits)

lemma insert_message_count:
  "snd st = length (fst st) \<Longrightarrow> snd (insert_message m st msg) = length (fst (insert_message m st msg))"
  using insert_message_cases[of m st msg] by auto

lemma foldl_insert_message_count:
  "snd st = length (fst st) \<Longrightarrow>
     snd (foldl (insert_message m) st ms) = length (fst (foldl (insert_message m) st ms))"
  by (induction ms arbitrary: st) (simp_all add: insert_message_count)

lemma insert_message_mono: "snd st \<le> snd (insert_message m st msg)"
  using insert_message_cases[of m st msg] by auto

lemma foldl_insert_message_mono: "snd st \<le> snd (foldl (insert_message m) st ms)"
proof (induction ms arbitrary: st)
  case Nil
  then show ?case by simp
next
  case (Cons x xs)
  have "snd st \<le> snd (insert_message m st x)" by (rule insert_message_mono)
  also have "\<dots> \<le> snd (foldl (insert_message m) (insert_message m st x) xs)" by (rule Cons.IH)
  finally show ?case by simp
qed

lemma foldl_insert_message_all_skipped:
  "\<forall>msg \<in> set ms. skipped m msg \<Longrightarrow> foldl (insert_message m) st ms = st"
  by (induction ms arbitrary: st) (simp_all add: insert_message_skipped)

lemma foldl_insert_message_zero:
  "snd (foldl (insert_message m) ([], 0) ms) = 0 \<longleftrightarrow> (\<forall>msg \<in> set ms. skipped m msg)"
proof
  assume z: "snd (foldl (insert_message m) ([], 0) ms) = 0"
  show "\<forall>msg \<in> set ms. skipped m msg"
  proof (rule ccontr)
    assume "\<not> (\<forall>msg \<in> set ms. skipped m msg)"
    then obtain pre x post where split: "ms = pre @ x # post"
      and pre: "\<forall>msg \<in> set pre. skipped m msg" and x: "\<not> skipped m x"
      using split_list_first_prop[of ms "\<lambda>msg. \<not> skipped m msg"] by auto
    from insert_message_first[OF x, of 0] obtain row where
      "insert_message m ([], 0) x = ([row], 1)" by auto
    then have "foldl (insert_message m) ([], 0) ms = foldl (insert_message m) ([row], 1) post"
      using foldl_insert_message_all_skipped[OF pre, of "([], 0)"] by (simp add: split)
    with foldl_insert_message_mono[of "([row], 1)" m post] z show False by simp
  qed
next
  assume "\<forall>msg \<in> set ms. skipped m msg"
  then show "snd (foldl (insert_message m) ([], 0) ms) = 0"
    by (simp add: foldl_insert_message_all_skipped)
qed

text \<open>
  C6. The export of no snapshot, or of one without messages, fails with "No data to
  export". The export of a snapshot with messages fails with "No valid messages could be
  exported" when every message is skipped, which is when no row was inserted. In every
  other case it returns the database with the three tables.
\<close>

theorem export_fails_iff:
  "exportDatabaseFromIndexedDB None = Inl No_data_to_export
   \<and> exportDatabaseFromIndexedDB (Some snap) =
       (if or_empty (s_messages snap) = [] then Inl No_data_to_export
        else if \<forall>msg \<in> set (or_empty (s_messages snap)). skipped (snd (export_channels snap)) msg
          then Inl No_valid_messages_could_be_exported
        else Inr \<lparr>channels_t = fst (export_channels snap),
                  users_t = export_users snap,
                  messages_t = fst (export_messages snap)\<rparr>)
   \<and> ((\<forall>msg \<in> set (or_empty (s_messages snap)). skipped (snd (export_channels snap)) msg)
        \<longleftrightarrow> length (fst (export_messages snap)) = 0)"
proof -
  have cnt: "snd (export_messages snap) = length (fst (export_messages snap))"
    unfolding export_messages_def by (rule foldl_insert_message_count) simp
  have zero: "snd (export_messages snap) = 0
      \<longleftrightarrow> (\<forall>msg \<in> set (or_empty (s_messages snap)). skipped (snd (export_channels snap)) msg)"
    unfolding export_messages_def by (rule foldl_insert_message_zero)
  from cnt zero show ?thesis
    by (simp add: exportDatabaseFromIndexedDB_def Let_def)
qed

lemma orphan_snapshot_facts:
  "or_empty (s_messages orphan_snapshot) \<noteq> []"
  "\<forall>msg \<in> set (or_empty (s_messages orphan_snapshot)).
      skipped (snd (export_channels orphan_snapshot)) msg"
  "or_empty (s_messages empty_snapshot) = []"
  "or_empty (s_messages example_snapshot) \<noteq> []"
  "\<not> (\<forall>msg \<in> set (or_empty (s_messages example_snapshot)).
        skipped (snd (export_channels example_snapshot)) msg)"
  by code_simp+

theorem export_fails_iff_witness:
  "exportDatabaseFromIndexedDB None = Inl No_data_to_export
   \<and> exportDatabaseFromIndexedDB (Some empty_snapshot) = Inl No_data_to_export
   \<and> exportDatabaseFromIndexedDB (Some orphan_snapshot) = Inl No_valid_messages_could_be_exported
   \<and> length (fst (export_messages orphan_snapshot)) = 0
   \<and> exportDatabaseFromIndexedDB (Some example_snapshot) =
       Inr \<lparr>channels_t = fst (export_channels example_snapshot),
            users_t = export_users example_snapshot,
            messages_t = fst (export_messages example_snapshot)\<rparr>
   \<and> length (fst (export_messages example_snapshot)) \<noteq> 0"
  using export_fails_iff[of empty_snapshot] export_fails_iff[of orphan_snapshot]
        export_fails_iff[of example_snapshot] orphan_snapshot_facts
  by simp

lemma is_string_field_obj: "is_string (field c k) \<Longrightarrow> truthy c"
  by (cases c) simp_all

lemma export_two_users:
  assumes "s_users snap = Some [u1, u2]" "well_formed_user u1" "well_formed_user u2"
    and "field u1 ''user_id'' \<noteq> field u2 ''user_id''"
  shows "map ur_user_id (export_users snap)
           = [str_of (field u1 ''user_id''), str_of (field u2 ''user_id'')]"
proof -
  have t: "truthy u1" "truthy u2"
    using assms(2,3) is_string_field_obj[of u1 "''user_id''"] is_string_field_obj[of u2 "''user_id''"]
    by (simp_all add: well_formed_user_def)
  obtain a b where ab: "field u1 ''user_id'' = JStr a" "field u2 ''user_id'' = JStr b"
    using assms(2,3)
    by (cases "field u1 ''user_id''"; cases "field u2 ''user_id''") (auto simp: well_formed_user_def)
  with assms(4) have ne: "a \<noteq> b" by simp
  from assms(1-3) t ab ne show ?thesis
    by (auto simp: export_users_def or_empty_def insert_user_def well_formed_user_def
        split: option.splits)
qed

lemma export_one_channel:
  assumes "s_channels snap = Some [ch]" "well_formed_channel ch"
  shows "export_channels snap =
           ([\<lparr>cr_id = 1, cr_name = channel_name ch, cr_url = channel_url ch\<rparr>],
            [field ch ''channel_id'' \<mapsto> 1])"
proof -
  from assms(2) have "truthy ch"
    by (cases ch) (simp_all add: well_formed_channel_def)
  with assms show ?thesis
    by (simp add: export_channels_def or_empty_def insert_channel_def well_formed_channel_def)
qed

lemma well_formed_not_skipped:
  assumes "truthy cid" "map_get m cid = Some c" "c \<noteq> 0" "well_formed_message cid msg"
  shows "\<not> skipped m msg"
proof -
  from assms(4) have "truthy msg"
    by (cases msg) (simp_all add: well_formed_message_def)
  moreover obtain a where "field msg ''message_id'' = JStr a"
    using assms(4) by (cases "field msg ''message_id''") (auto simp: well_formed_message_def)
  ultimately show ?thesis
    using assms by (auto simp: skipped_def well_formed_message_def)
qed

lemma insert_well_formed:
  assumes "truthy cid" "map_get m cid = Some c" "c \<noteq> 0" "well_formed_message cid msg"
    and "message_key msg \<notin> mr_message_id ` set (fst st)"
  shows "\<exists>row. insert_message m st msg = (fst st @ [row], snd st + 1)
             \<and> mr_message_id row = message_key msg"
proof -
  obtain a where a: "field msg ''message_id'' = JStr a" "a \<noteq> []"
    using assms(4) by (cases "field msg ''message_id''") (auto simp: well_formed_message_def)
  obtain uid where uid: "bind (js_or (field msg ''user_id'') JNull) = Some uid"
    using assms(4) by (auto simp: well_formed_message_def)
  have t: "truthy msg" using assms(4) by (cases msg) (simp_all add: well_formed_message_def)
  have ch: "field msg ''channel_id'' = cid" using assms(4) by (simp add: well_formed_message_def)
  obtain row where row: "message_row_of (int (length (fst st)) + 1) c msg = Some row"
    "mr_message_id row = SText a"
    using a uid by (simp add: message_row_of_def)
  have k: "message_key msg = SText a" using a by (simp add: message_key_def)
  have u: "(mr_channel_id row, mr_message_id row)
             \<notin> (\<lambda>r. (mr_channel_id r, mr_message_id r)) ` set (fst st)"
  proof
    assume "(mr_channel_id row, mr_message_id row)
             \<in> (\<lambda>r. (mr_channel_id r, mr_message_id r)) ` set (fst st)"
    then obtain r where "r \<in> set (fst st)" "mr_message_id r = mr_message_id row" by auto
    then have "mr_message_id row \<in> mr_message_id ` set (fst st)" by (metis imageI)
    with assms(5) k row(2) show False by simp
  qed
  have "insert_message m st msg = (fst st @ [row], snd st + 1)"
    unfolding insert_message_def using t a ch assms(1-3) row(1) u by simp
  with row(2) k show ?thesis by simp
qed

lemma foldl_insert_well_formed:
  assumes "truthy cid" "map_get m cid = Some c" "c \<noteq> 0"
    and "\<forall>msg \<in> set ms. well_formed_message cid msg \<or> skipped m msg"
    and "distinct (map message_key (filter (well_formed_message cid) ms))"
    and "\<forall>msg \<in> set (filter (well_formed_message cid) ms).
           message_key msg \<notin> mr_message_id ` set (fst st)"
  shows "map mr_message_id (fst (foldl (insert_message m) st ms))
           = map mr_message_id (fst st) @ map message_key (filter (well_formed_message cid) ms)
       \<and> snd (foldl (insert_message m) st ms)
           = snd st + length (filter (well_formed_message cid) ms)"
  using assms(4-6)
proof (induction ms arbitrary: st)
  case Nil
  then show ?case by simp
next
  case (Cons x xs)
  show ?case
  proof (cases "well_formed_message cid x")
    case True
    with Cons.prems(3) have "message_key x \<notin> mr_message_id ` set (fst st)" by simp
    from insert_well_formed[OF assms(1-3) True this]
    obtain row where row: "insert_message m st x = (fst st @ [row], snd st + 1)"
      "mr_message_id row = message_key x" by blast
    from Cons.prems(2) True
    have fresh: "message_key x \<notin> message_key ` set (filter (well_formed_message cid) xs)"
      by simp
    have "\<forall>msg \<in> set (filter (well_formed_message cid) xs).
            message_key msg \<notin> mr_message_id ` set (fst (fst st @ [row], snd st + 1))"
    proof
      fix msg assume m: "msg \<in> set (filter (well_formed_message cid) xs)"
      with fresh have "message_key msg \<noteq> message_key x" by (metis imageI)
      moreover from m Cons.prems(3) have "message_key msg \<notin> mr_message_id ` set (fst st)"
        by simp
      ultimately show "message_key msg \<notin> mr_message_id ` set (fst (fst st @ [row], snd st + 1))"
        using row(2) by auto
    qed
    from Cons.IH[OF _ _ this] Cons.prems(1,2) True
    have "map mr_message_id (fst (foldl (insert_message m) (fst st @ [row], snd st + 1) xs))
           = map mr_message_id (fst st @ [row]) @ map message_key (filter (well_formed_message cid) xs)
       \<and> snd (foldl (insert_message m) (fst st @ [row], snd st + 1) xs)
           = snd st + 1 + length (filter (well_formed_message cid) xs)"
      by simp
    with True row show ?thesis by simp
  next
    case False
    with Cons.prems(1) have "skipped m x" by simp
    then have "insert_message m st x = st" by (rule insert_message_skipped)
    with Cons.IH[of st] Cons.prems False show ?thesis by simp
  qed
qed

text \<open>
  C5. A snapshot with two users (well-formed, with different ids), one well-formed channel
  and three messages, of which two are well-formed messages of that channel with different
  ids and the third is one the loop skips (its channel has no surrogate id, or it is
  malformed): the export succeeds with exactly 2 message rows, 1 channel row and 2 user
  rows, the message rows being those of the two well-formed messages in their order. And in
  any export a skipped message changes nothing: no row, no count, no error.
\<close>

theorem export_round_trip:
  assumes users: "s_users snap = Some [u1, u2]" "well_formed_user u1" "well_formed_user u2"
      "field u1 ''user_id'' \<noteq> field u2 ''user_id''"
    and chans: "s_channels snap = Some [ch]" "well_formed_channel ch"
    and msgs: "s_messages snap = Some ms" "length ms = 3"
      "\<forall>msg \<in> set ms. well_formed_message (field ch ''channel_id'') msg
                       \<or> skipped (snd (export_channels snap)) msg"
      "length (filter (well_formed_message (field ch ''channel_id'')) ms) = 2"
      "distinct (map message_key (filter (well_formed_message (field ch ''channel_id'')) ms))"
  shows "(\<exists>d. exportDatabaseFromIndexedDB (Some snap) = Inr d
           \<and> length (messages_t d) = 2 \<and> length (channels_t d) = 1 \<and> length (users_t d) = 2
           \<and> map mr_message_id (messages_t d)
               = map message_key (filter (well_formed_message (field ch ''channel_id'')) ms)
           \<and> map ur_user_id (users_t d) = [str_of (field u1 ''user_id''), str_of (field u2 ''user_id'')]
           \<and> map cr_url (channels_t d) = [channel_url ch])
       \<and> (\<forall>msg st. skipped (snd (export_channels snap)) msg
              \<longrightarrow> insert_message (snd (export_channels snap)) st msg = st)"
proof -
  let ?cid = "field ch ''channel_id''"
  let ?m = "snd (export_channels snap)"
  have ch: "export_channels snap =
           ([\<lparr>cr_id = 1, cr_name = channel_name ch, cr_url = channel_url ch\<rparr>], [?cid \<mapsto> 1])"
    by (rule export_one_channel[OF chans])
  have cid: "truthy ?cid" "map_get ?m ?cid = Some 1"
    using chans(2) by (simp_all add: well_formed_channel_def ch map_get_def)
  have us: "map ur_user_id (export_users snap)
           = [str_of (field u1 ''user_id''), str_of (field u2 ''user_id'')]"
    by (rule export_two_users[OF users])
  have "\<forall>msg \<in> set (filter (well_formed_message ?cid) ms).
           message_key msg \<notin> mr_message_id ` set (fst (([], 0) :: message_row list \<times> nat))"
    by simp
  from foldl_insert_well_formed[OF cid(1) cid(2) _ msgs(3) msgs(5) this]
  have ms: "map mr_message_id (fst (export_messages snap))
              = map message_key (filter (well_formed_message ?cid) ms)"
    "snd (export_messages snap) = 2"
    using msgs(1,4) by (simp_all add: export_messages_def or_empty_def)
  have len: "length (fst (export_messages snap)) = 2"
  proof -
    have "length (map mr_message_id (fst (export_messages snap))) = 2"
      unfolding ms(1) using msgs(4) by simp
    then show ?thesis by simp
  qed
  have ulen: "length (export_users snap) = 2"
  proof -
    have "length (map ur_user_id (export_users snap)) = 2"
      unfolding us by simp
    then show ?thesis by simp
  qed
  have ne: "or_empty (s_messages snap) \<noteq> []"
    using msgs(1,2) by (auto simp: or_empty_def)
  have "exportDatabaseFromIndexedDB (Some snap) =
          Inr \<lparr>channels_t = fst (export_channels snap), users_t = export_users snap,
               messages_t = fst (export_messages snap)\<rparr>"
    using ne ms(2) by (simp add: exportDatabaseFromIndexedDB_def Let_def)
  with ms(1) len us ulen ch insert_message_skipped show ?thesis by simp
qed

lemma example_export:
  "exportDatabaseFromIndexedDB (Some example_snapshot) =
     Inr \<lparr>channels_t = [\<lparr>cr_id = 1, cr_name = ''general'',
                          cr_url = ''https://discord.com/channels/111/222''\<rparr>],
          users_t = [\<lparr>ur_user_id = ''42'', ur_username = SText ''ana''\<rparr>,
                     \<lparr>ur_user_id = ''43'', ur_username = SText ''bo''\<rparr>],
          messages_t =
            [\<lparr>mr_id = 1, mr_channel_id = 1, mr_message_id = SText ''5'', mr_user_id = SText ''42'',
              mr_content = ''hello'', mr_timestamp = SText ''2025-12-16T10:00:00.000Z'',
              mr_attachments = [], mr_reactions = SNull\<rparr>,
             \<lparr>mr_id = 2, mr_channel_id = 1, mr_message_id = SText ''7'', mr_user_id = SNull,
              mr_content = ''hello'', mr_timestamp = SText ''2025-12-16T10:00:00.000Z'',
              mr_attachments = [], mr_reactions = SNull\<rparr>]\<rparr>"
  by code_simp

lemma example_snapshot_facts:
  "well_formed_user user_ana" "well_formed_user user_bo"
  "field user_ana ''user_id'' \<noteq> field user_bo ''user_id''"
  "well_formed_channel channel_general"
  "field channel_general ''channel_id'' = JStr ''222''"
  "well_formed_message (JStr ''222'') (stored_message ''5'' ''222'' (JStr ''42''))"
  "\<not> well_formed_message (JStr ''222'') (stored_message ''6'' ''999'' (JStr ''43''))"
  "well_formed_message (JStr ''222'') (stored_message ''7'' ''222'' JNull)"
  "skipped (snd (export_channels example_snapshot)) (stored_message ''6'' ''999'' (JStr ''43''))"
  "message_key (stored_message ''5'' ''222'' (JStr ''42'')) = SText ''5''"
  "message_key (stored_message ''7'' ''222'' JNull) = SText ''7''"
  by code_simp+


theorem export_round_trip_witness:
  "well_formed_user user_ana \<and> well_formed_user user_bo \<and> well_formed_channel channel_general
   \<and> length (or_empty (s_messages example_snapshot)) = 3
   \<and> skipped (snd (export_channels example_snapshot)) (stored_message ''6'' ''999'' (JStr ''43''))
   \<and> (\<exists>d. exportDatabaseFromIndexedDB (Some example_snapshot) = Inr d
          \<and> length (messages_t d) = 2 \<and> length (channels_t d) = 1 \<and> length (users_t d) = 2
          \<and> map mr_message_id (messages_t d) = [SText ''5'', SText ''7''])"
proof -
  let ?ms = "[stored_message ''5'' ''222'' (JStr ''42''), stored_message ''6'' ''999'' (JStr ''43''),
              stored_message ''7'' ''222'' JNull]"
  have u: "s_users example_snapshot = Some [user_ana, user_bo]"
    and c: "s_channels example_snapshot = Some [channel_general]"
    and m: "s_messages example_snapshot = Some ?ms"
    by (simp_all add: example_snapshot_def)
  note f = example_snapshot_facts
  have each: "\<forall>msg \<in> set ?ms. well_formed_message (field channel_general ''channel_id'') msg
                       \<or> skipped (snd (export_channels example_snapshot)) msg"
    using f(5,6,8,9) by simp
  have two: "length (filter (well_formed_message (field channel_general ''channel_id'')) ?ms) = 2"
    using f(5,6,7,8) by simp
  have keys: "distinct (map message_key
                 (filter (well_formed_message (field channel_general ''channel_id'')) ?ms))"
    using f(5,6,7,8,10,11) by simp
  from export_round_trip[OF u f(1,2,3) c f(4) m _ each two keys]
  obtain d where d: "exportDatabaseFromIndexedDB (Some example_snapshot) = Inr d"
    "length (messages_t d) = 2" "length (channels_t d) = 1" "length (users_t d) = 2"
    "map mr_message_id (messages_t d)
       = map message_key (filter (well_formed_message (field channel_general ''channel_id'')) ?ms)"
    by auto
  from d(5) f(5,6,7,8,10,11) have "map mr_message_id (messages_t d) = [SText ''5'', SText ''7'']"
    by simp
  with d f m show ?thesis by (auto simp: or_empty_def)
qed


end
